theory Spec2Isabelle
  imports Main "HOL-Library.AList"
begin

section \<open>Conventions\<close>

text \<open>
  The development embeds the authentication and session-token code of the expense tracker
  backend: \<^verbatim>\<open>middleware/authMiddleware.js\<close>, \<^verbatim>\<open>models/User.js\<close> and the
  authentication controller.

  \<^item> JavaScript numbers that hold counters and millisecond timestamps are \<open>int\<close>.
  \<^item> Strings are lists of ASCII characters. A string property that may be absent
    (\<^verbatim>\<open>undefined\<close>) is a \<open>string\<close> whose empty value stands for "absent": the tests
    that the code applies to such a property (\<^verbatim>\<open>!x\<close>, \<^verbatim>\<open>x || d\<close>, \<^verbatim>\<open>x && ...\<close>,
    \<^verbatim>\<open>x !== 'lit'\<close>, a \<^verbatim>\<open>required\<close> validator) treat the two alike; the cast of an
    identifier by the store does not, and reads the empty value as absent.
  \<^item> \<^verbatim>\<open>Date.now()\<close> is the parameter \<open>now\<close> of a handler (milliseconds), read once per
    request; \<^verbatim>\<open>crypto.randomUUID()\<close> is a parameter that supplies the identifier.
  \<^item> An exception is a value of the type \<open>thrown\<close>, named after \<^verbatim>\<open>error.name\<close>
    (\<open>PlainError\<close> for the name \<^verbatim>\<open>Error\<close>), and a function that may throw returns a sum. The store throws \<open>CastError\<close> from a query by
    an identifier that is no ObjectId, and \<open>ValidationError\<close> from a \<^verbatim>\<open>save\<close> or a
    \<^verbatim>\<open>create\<close> of a document in which a path that the caller assigned fails a validator
    of the schema. The documents that the store already holds are not validated again.
    Other failures of the store (no connection, a duplicate key of an index, a version
    conflict) are not part of the model.
\<close>

definition js_or :: "string \<Rightarrow> string \<Rightarrow> string" where
  \<comment> \<open>\<^verbatim>\<open>x || d\<close> on strings\<close>
  "js_or x d = (if x = [] then d else x)"

section \<open>The jsonwebtoken library, symbolically\<close>

text \<open>
  A raw token string is either a well-formed JSON Web Token, which carries the key that
  produced its signature and its payload, or any other string. Verification under a key
  succeeds on the signature exactly when the token was signed with that key.
\<close>

record payload =
  p_id :: string
  p_email :: string
  p_role :: string
  p_tokenType :: string
  p_iat :: int
  p_jti :: string
  p_exp :: "int option"
  p_nbf :: "int option"
  p_iss :: string
  p_aud :: string

datatype jwt = Malformed string | Signed string payload

datatype thrown =
    JsonWebTokenError | TokenExpiredError | NotBeforeError
  | CastError | ValidationError | TypeError | PlainError

record sign_options =
  expiresIn :: int
  issuer :: string
  audience :: string

definition jwt_sign :: "payload \<Rightarrow> string \<Rightarrow> sign_options \<Rightarrow> jwt" where
  \<comment> \<open>\<^verbatim>\<open>jwt.sign(payload, secret, {expiresIn, issuer, audience})\<close>\<close>
  "jwt_sign p secret opts =
     Signed secret (p\<lparr>p_exp := Some (p_iat p + expiresIn opts),
                       p_iss := issuer opts, p_aud := audience opts\<rparr>)"

definition jwt_decode :: "jwt \<Rightarrow> payload option" where
  \<comment> \<open>\<^verbatim>\<open>jwt.decode(token)\<close>: the payload, unverified; null on a string that is no token\<close>
  "jwt_decode t = (case t of Malformed s \<Rightarrow> None | Signed k p \<Rightarrow> Some p)"

definition jwt_verify :: "jwt \<Rightarrow> string \<Rightarrow> string \<Rightarrow> string \<Rightarrow> int \<Rightarrow> thrown + payload" where
  \<comment> \<open>\<^verbatim>\<open>jwt.verify(token, secret, {issuer, audience})\<close> at the clock \<open>now\<close> (milliseconds);
      the order of the checks is the library's\<close>
  "jwt_verify t secret iss aud now =
     (case t of
        Malformed s \<Rightarrow> Inl JsonWebTokenError
      | Signed k p \<Rightarrow>
          if k \<noteq> secret then Inl JsonWebTokenError
          else if (case p_nbf p of None \<Rightarrow> False | Some n \<Rightarrow> n > now div 1000)
            then Inl NotBeforeError
          else if (case p_exp p of None \<Rightarrow> False | Some e \<Rightarrow> now div 1000 \<ge> e)
            then Inl TokenExpiredError
          else if p_aud p \<noteq> aud then Inl JsonWebTokenError
          else if p_iss p \<noteq> iss then Inl JsonWebTokenError
          else Inr p)"

section \<open>Environment\<close>

record env =
  JWT_SECRET :: string
  JWT_REFRESH_SECRET :: string
  JWT_EXPIRES_IN :: "int option"
  JWT_REFRESH_EXPIRES_IN :: "int option"
  JWT_ISSUER :: string
  JWT_AUDIENCE :: string
  MAX_LOGIN_ATTEMPTS :: "int option"
  LOCKOUT_TIME_MINUTES :: "int option"

text \<open>
  \<open>JWT_EXPIRES_IN\<close> and \<open>JWT_REFRESH_EXPIRES_IN\<close> hold the time span in seconds that the
  setting denotes (\<open>None\<close> when unset: the code then uses \<^verbatim>\<open>'1h'\<close> and \<^verbatim>\<open>'7d'\<close>);
  \<open>MAX_LOGIN_ATTEMPTS\<close> and \<open>LOCKOUT_TIME_MINUTES\<close> hold what \<^verbatim>\<open>parseInt\<close> returns
  (\<open>None\<close> for \<^verbatim>\<open>NaN\<close>).
\<close>

definition empty_env :: env where
  "empty_env = \<lparr>JWT_SECRET = [], JWT_REFRESH_SECRET = [], JWT_EXPIRES_IN = None,
     JWT_REFRESH_EXPIRES_IN = None, JWT_ISSUER = [], JWT_AUDIENCE = [],
     MAX_LOGIN_ATTEMPTS = None, LOCKOUT_TIME_MINUTES = None\<rparr>"

definition getCurrentJWTSecret :: "env \<Rightarrow> string" where
  "getCurrentJWTSecret e =
     js_or (JWT_SECRET e) ''3de45819a68860e577acbd9d2b28fa6f5e8672755afd5f43e3ef1ae15b67d809''"

definition getRefreshSecret :: "env \<Rightarrow> string" where
  "getRefreshSecret e =
     js_or (JWT_REFRESH_SECRET e)
       ''7b8c9d0e1f2a3b4c5d6e7f8a9b0c1d2e3f4a5b6c7d8e9f0a1b2c3d4e5f6a7b8c_refresh_token_secret''"

definition jwt_issuer :: "env \<Rightarrow> string" where
  "jwt_issuer e = js_or (JWT_ISSUER e) ''expense-tracker''"

definition jwt_audience :: "env \<Rightarrow> string" where
  "jwt_audience e = js_or (JWT_AUDIENCE e) ''expense-tracker-users''"

definition access_expiresIn :: "env \<Rightarrow> int" where
  "access_expiresIn e = (case JWT_EXPIRES_IN e of None \<Rightarrow> 3600 | Some s \<Rightarrow> s)"

definition refresh_expiresIn :: "env \<Rightarrow> int" where
  "refresh_expiresIn e = (case JWT_REFRESH_EXPIRES_IN e of None \<Rightarrow> 604800 | Some s \<Rightarrow> s)"

section \<open>The in-process registries\<close>

record token_info =
  ti_userId :: string
  ti_email :: string
  ti_createdAt :: int
  ti_lastUsed :: int

text \<open>
  \<^verbatim>\<open>tokenBlacklist\<close> is a JavaScript \<^verbatim>\<open>Set\<close>: its elements in insertion order, without
  repetition. \<^verbatim>\<open>refreshTokens\<close> is a \<^verbatim>\<open>Map\<close> from token identifiers to descriptors.
\<close>

record mem =
  tokenBlacklist :: "jwt list"
  refreshTokens :: "(string \<times> token_info) list"

definition set_add :: "'a \<Rightarrow> 'a list \<Rightarrow> 'a list" where
  \<comment> \<open>\<^verbatim>\<open>Set.prototype.add\<close>\<close>
  "set_add x xs = (if x \<in> set xs then xs else xs @ [x])"

definition slice_last :: "nat \<Rightarrow> 'a list \<Rightarrow> 'a list" where
  \<comment> \<open>\<^verbatim>\<open>arr.slice(-n)\<close>\<close>
  "slice_last n xs = drop (length xs - n) xs"

definition isTokenBlacklisted :: "mem \<Rightarrow> jwt \<Rightarrow> bool" where
  "isTokenBlacklisted m token = (token \<in> set (tokenBlacklist m))"

definition falsy_token :: "jwt \<Rightarrow> bool" where
  \<comment> \<open>\<^verbatim>\<open>!token\<close>: the empty string (or no string at all)\<close>
  "falsy_token token = (token = Malformed [])"

definition blacklistToken :: "jwt \<Rightarrow> mem \<Rightarrow> mem" where
  "blacklistToken token m =
     (if falsy_token token then m
      else
        let m1 = m\<lparr>tokenBlacklist := set_add token (tokenBlacklist m)\<rparr>;
            m2 = (case jwt_decode token of
                    None \<Rightarrow> m1
                  | Some decoded \<Rightarrow>
                      if p_jti decoded \<noteq> []
                      then m1\<lparr>refreshTokens := AList.delete (p_jti decoded) (refreshTokens m1)\<rparr>
                      else m1)
        in if length (tokenBlacklist m2) > 10000
           then let tokensArray = tokenBlacklist m2;
                    tokensToKeep = slice_last 5000 tokensArray
                in m2\<lparr>tokenBlacklist := fold set_add tokensToKeep []\<rparr>
           else m2)"

section \<open>The credential record (models/User.js)\<close>

text \<open>
  Digests are symbolic: a digest names the algorithm and the input it was computed from.
  A stored password is either a bcrypt hash, named by the password it was computed
  from, or a plain string that is no hash; \<^verbatim>\<open>bcrypt.compare\<close> succeeds on a hash of the
  candidate only.
\<close>

datatype digest = MD5_16 string | SHA256_hex jwt

datatype stored_password = Bcrypt string | Plain string

definition bcrypt_compare :: "string \<Rightarrow> stored_password \<Rightarrow> bool" where
  "bcrypt_compare candidate h = (case h of Bcrypt pw \<Rightarrow> candidate = pw | Plain s \<Rightarrow> False)"

record login_record =
  lh_timestamp :: int
  lh_ip :: string
  lh_userAgent :: string
  lh_success :: bool
  lh_deviceFingerprint :: digest

record refresh_descriptor =
  rt_tokenHash :: digest
  rt_jti :: string
  rt_expiresAt :: int
  rt_deviceInfo :: string
  rt_lastUsed :: int
  rt_isRevoked :: bool

record password_record =
  ph_passwordHash :: stored_password
  ph_changedAt :: int

text \<open>
  The fields of the schema that the authentication code reads or writes, and those that
  the JSON transform removes. \<open>u_id\<close> is \<^verbatim>\<open>_id\<close> and \<open>u_refreshTokens\<close> is the
  persisted \<^verbatim>\<open>refreshTokens\<close> list of the record.
\<close>

record user =
  u_id :: string
  fullName :: string
  email :: string
  password :: "stored_password option"
  profileImageUrl :: string
  status :: string
  role :: string
  loginAttempts :: int
  lockUntil :: "int option"
  maxLoginAttempts :: int
  lockTime :: int
  lastLogin :: "int option"
  lastLoginIP :: string
  loginHistory :: "login_record list"
  u_refreshTokens :: "refresh_descriptor list"
  twoFactorEnabled :: bool
  twoFactorSecret :: string
  backupCodes :: "string list"
  resetPasswordToken :: string
  emailVerificationToken :: string
  emailVerificationExpires :: "int option"
  passwordHistory :: "password_record list"
  passwordLastChanged :: int
  emailVerified :: bool
  lastActiveAt :: int
  createdAt :: int

definition default_maxLoginAttempts :: "env \<Rightarrow> int" where
  \<comment> \<open>\<^verbatim>\<open>parseInt(process.env.MAX_LOGIN_ATTEMPTS) || 5\<close>\<close>
  "default_maxLoginAttempts e =
     (case MAX_LOGIN_ATTEMPTS e of None \<Rightarrow> 5 | Some n \<Rightarrow> if n = 0 then 5 else n)"

definition default_lockTime :: "env \<Rightarrow> int" where
  \<comment> \<open>\<^verbatim>\<open>(parseInt(process.env.LOCKOUT_TIME_MINUTES) || 30) * 60 * 1000\<close>\<close>
  "default_lockTime e =
     (case LOCKOUT_TIME_MINUTES e of None \<Rightarrow> 30 | Some n \<Rightarrow> if n = 0 then 30 else n) * 60 * 1000"

subsection \<open>Validators of the schema\<close>

text \<open>
  The regular expressions of the schema, as predicates on strings. \<open>split_on\<close> is
  \<^verbatim>\<open>String.prototype.split\<close> with a separator of one character.
\<close>

definition char_code :: "char \<Rightarrow> nat" where
  "char_code c = of_char c"

definition is_digit :: "char \<Rightarrow> bool" where
  \<comment> \<open>\<^verbatim>\<open>[0-9]\<close>\<close>
  "is_digit c = (48 \<le> char_code c \<and> char_code c \<le> 57)"

definition is_hex :: "char \<Rightarrow> bool" where
  \<comment> \<open>\<^verbatim>\<open>[0-9a-fA-F]\<close>\<close>
  "is_hex c = (is_digit c \<or> (97 \<le> char_code c \<and> char_code c \<le> 102) \<or>
               (65 \<le> char_code c \<and> char_code c \<le> 70))"

definition is_letter :: "char \<Rightarrow> bool" where
  \<comment> \<open>\<^verbatim>\<open>[a-zA-Z]\<close>\<close>
  "is_letter c = ((97 \<le> char_code c \<and> char_code c \<le> 122) \<or>
                  (65 \<le> char_code c \<and> char_code c \<le> 90))"

definition is_space :: "char \<Rightarrow> bool" where
  \<comment> \<open>\<^verbatim>\<open>\s\<close>, and the characters that \<^verbatim>\<open>trim\<close> removes: space, tab, line feed, vertical
      tab, form feed, carriage return\<close>
  "is_space c = (char_code c = 32 \<or> (9 \<le> char_code c \<and> char_code c \<le> 13))"

fun split_on :: "char \<Rightarrow> string \<Rightarrow> string list" where
  "split_on sep [] = [[]]"
| "split_on sep (c # cs) =
     (if c = sep then [] # split_on sep cs
      else case split_on sep cs of
             [] \<Rightarrow> [[c]]
           | part # parts \<Rightarrow> (c # part) # parts)"

fun ipv4_octet :: "string \<Rightarrow> bool" where
  \<comment> \<open>\<^verbatim>\<open>25[0-5]|2[0-4][0-9]|[01]?[0-9][0-9]?\<close>\<close>
  "ipv4_octet [a] = is_digit a"
| "ipv4_octet [a, b] = (is_digit a \<and> is_digit b)"
| "ipv4_octet [a, b, c] =
     (is_digit b \<and> is_digit c \<and>
      (a = CHR ''0'' \<or> a = CHR ''1'' \<or>
       (a = CHR ''2'' \<and> (char_code b \<le> 52 \<or> (b = CHR ''5'' \<and> char_code c \<le> 53)))))"
| "ipv4_octet s = False"

definition ipv6_group :: "string \<Rightarrow> bool" where
  \<comment> \<open>\<^verbatim>\<open>[0-9a-fA-F]{1,4}\<close>\<close>
  "ipv6_group s = (1 \<le> length s \<and> length s \<le> 4 \<and> list_all is_hex s)"

definition ip_format :: "string \<Rightarrow> bool" where
  \<comment> \<open>the regular expression of the \<^verbatim>\<open>lastLoginIP\<close> validator: four octets separated by
      dots, or eight groups of hexadecimal digits separated by colons\<close>
  "ip_format v =
     ((length (split_on CHR ''.'' v) = 4 \<and> list_all ipv4_octet (split_on CHR ''.'' v)) \<or>
      (length (split_on CHR '':'' v) = 8 \<and> list_all ipv6_group (split_on CHR '':'' v)))"

definition valid_lastLoginIP :: "string \<Rightarrow> bool" where
  \<comment> \<open>\<^verbatim>\<open>if (!v) return true; return /.../.test(v)\<close>\<close>
  "valid_lastLoginIP v = (v = [] \<or> ip_format v)"

definition valid_login_record :: "login_record \<Rightarrow> bool" where
  \<comment> \<open>an entry of \<^verbatim>\<open>loginHistory\<close>: \<^verbatim>\<open>ip\<close> is required, \<^verbatim>\<open>userAgent\<close> has at most 500
      characters; the fingerprint, 16 hexadecimal digits, is within its 100\<close>
  "valid_login_record h = (lh_ip h \<noteq> [] \<and> length (lh_userAgent h) \<le> 500)"

definition valid_refresh_descriptor :: "refresh_descriptor \<Rightarrow> bool" where
  \<comment> \<open>an entry of \<^verbatim>\<open>refreshTokens\<close>: \<^verbatim>\<open>jti\<close> is required (as are the hash and the expiry,
      which are always given), \<^verbatim>\<open>deviceInfo\<close> has at most 200 characters\<close>
  "valid_refresh_descriptor rt = (rt_jti rt \<noteq> [] \<and> length (rt_deviceInfo rt) \<le> 200)"

definition valid_fullName :: "string \<Rightarrow> bool" where
  \<comment> \<open>required, 2 to 50 characters, \<^verbatim>\<open>/^[a-zA-Z\s'-]+$/\<close>\<close>
  "valid_fullName v =
     (2 \<le> length v \<and> length v \<le> 50 \<and>
      list_all (\<lambda>c. is_letter c \<or> is_space c \<or> c = CHR 0x27 \<or> c = CHR ''-'') v)"

definition email_format :: "string \<Rightarrow> bool" where
  \<comment> \<open>\<^verbatim>\<open>/^[^\s@]+@[^\s@]+\.[^\s@]+$/\<close>: no white space, one \<^verbatim>\<open>@\<close> with something before
      it, and after it a dot that is neither the first nor the last character\<close>
  "email_format v =
     (\<not> list_ex is_space v \<and>
      (case split_on CHR ''@'' v of
         [local_part, domain] \<Rightarrow>
           local_part \<noteq> [] \<and>
           list_ex (\<lambda>i. domain ! i = CHR ''.'') [1 ..< length domain - 1]
       | _ \<Rightarrow> False))"

definition valid_email :: "string \<Rightarrow> bool" where
  \<comment> \<open>required, at most 100 characters, the format above\<close>
  "valid_email v = (v \<noteq> [] \<and> length v \<le> 100 \<and> email_format v)"

definition valid_password :: "string \<Rightarrow> bool" where
  \<comment> \<open>required, 8 to 128 characters; the validators see the password as it was assigned,
      before the \<^verbatim>\<open>pre('save')\<close> hook hashes it\<close>
  "valid_password v = (8 \<le> length v \<and> length v \<le> 128)"

definition url_format :: "string \<Rightarrow> bool" where
  \<comment> \<open>\<^verbatim>\<open>/^https?:\/\/.+/\<close>: the dot matches any character but a line terminator\<close>
  "url_format v =
     (let rest = (if take 7 v = ''http://'' then drop 7 v
                  else if take 8 v = ''https://'' then drop 8 v else [])
      in rest \<noteq> [] \<and> char_code (hd rest) \<noteq> 10 \<and> char_code (hd rest) \<noteq> 13)"

definition valid_profileImageUrl :: "string \<Rightarrow> bool" where
  "valid_profileImageUrl v = (length v \<le> 500 \<and> (v = [] \<or> url_format v))"

subsection \<open>Virtual fields\<close>

definition date_value :: "int option \<Rightarrow> int" where
  \<comment> \<open>a date or null in arithmetic: null counts as 0\<close>
  "date_value d = (case d of None \<Rightarrow> 0 | Some t \<Rightarrow> t)"

definition isLocked :: "user \<Rightarrow> int \<Rightarrow> bool" where
  \<comment> \<open>\<^verbatim>\<open>!!(this.lockUntil && this.lockUntil > Date.now())\<close>\<close>
  "isLocked u now = (case lockUntil u of None \<Rightarrow> False | Some l \<Rightarrow> l > now)"

definition attemptsRemaining :: "user \<Rightarrow> int" where
  "attemptsRemaining u = max 0 (maxLoginAttempts u - loginAttempts u)"

subsection \<open>Update documents\<close>

text \<open>
  \<^verbatim>\<open>updateOne\<close> sends an update document to the store and leaves the local document as
  it is. The operators are those the code uses, on the two lockout fields; a field that
  has been unset reads as its schema default (0 and null).
\<close>

datatype update_op =
    Unset_lockUntil
  | Unset_loginAttempts
  | Set_loginAttempts int
  | Set_lockUntil int
  | Inc_loginAttempts int

fun apply_op :: "update_op \<Rightarrow> user \<Rightarrow> user" where
  "apply_op Unset_lockUntil u = u\<lparr>lockUntil := None\<rparr>"
| "apply_op Unset_loginAttempts u = u\<lparr>loginAttempts := 0\<rparr>"
| "apply_op (Set_loginAttempts n) u = u\<lparr>loginAttempts := n\<rparr>"
| "apply_op (Set_lockUntil t) u = u\<lparr>lockUntil := Some t\<rparr>"
| "apply_op (Inc_loginAttempts n) u = u\<lparr>loginAttempts := loginAttempts u + n\<rparr>"

definition updateOne :: "update_op list \<Rightarrow> user \<Rightarrow> user" where
  "updateOne updates persisted = fold apply_op updates persisted"

subsection \<open>Methods\<close>

definition comparePassword :: "user \<Rightarrow> string \<Rightarrow> bool" where
  "comparePassword u candidatePassword =
     (case password u of None \<Rightarrow> False | Some h \<Rightarrow> bcrypt_compare candidatePassword h)"

text \<open>
  The hashes of the password history are never selected (\<^verbatim>\<open>select: false\<close>, and no query
  of the handlers names the path \<^verbatim>\<open>passwordHistory.passwordHash\<close>), so on a fetched
  document \<^verbatim>\<open>historicPassword.passwordHash\<close> is \<^verbatim>\<open>undefined\<close> and \<^verbatim>\<open>bcrypt.compare\<close>
  rejects with "Illegal arguments" at the first entry.
\<close>

definition isPasswordInHistory :: "user \<Rightarrow> string \<Rightarrow> thrown + bool" where
  "isPasswordInHistory this candidatePassword =
     (if passwordHistory this = [] then Inr False else Inl PlainError)"

definition incLoginAttempts :: "user \<Rightarrow> int \<Rightarrow> update_op list" where
  \<comment> \<open>the update document that \<^verbatim>\<open>incLoginAttempts\<close> sends, built from the local document\<close>
  "incLoginAttempts this now =
     (if (case lockUntil this of None \<Rightarrow> False | Some l \<Rightarrow> l < now)
      then [Unset_lockUntil, Set_loginAttempts 1]
      else
        let updates = [Inc_loginAttempts 1]
        in if loginAttempts this + 1 \<ge> maxLoginAttempts this \<and> \<not> isLocked this now
           then updates @ [Set_lockUntil (now + lockTime this)]
           else updates)"

definition resetLoginAttempts :: "update_op list" where
  "resetLoginAttempts = [Unset_loginAttempts, Unset_lockUntil]"

text \<open>
  A method that ends in \<^verbatim>\<open>this.save()\<close> comes in two parts: the assignments that it makes
  to the document (\<open>_assign\<close>), and the method itself, which throws when a path that it
  assigned fails its validator and returns the document otherwise.
\<close>

definition addRefreshToken_assign ::
  "digest \<Rightarrow> string \<Rightarrow> int \<Rightarrow> string \<Rightarrow> int \<Rightarrow> user \<Rightarrow> user" where
  "addRefreshToken_assign tokenHash jti expiresAt deviceInfo now this =
     (let pushed = u_refreshTokens this @
            [\<lparr>rt_tokenHash = tokenHash, rt_jti = jti, rt_expiresAt = expiresAt,
              rt_deviceInfo = deviceInfo, rt_lastUsed = now, rt_isRevoked = False\<rparr>]
      in this\<lparr>u_refreshTokens := (if length pushed > 5 then slice_last 5 pushed else pushed)\<rparr>)"

definition addRefreshToken ::
  "digest \<Rightarrow> string \<Rightarrow> int \<Rightarrow> string \<Rightarrow> int \<Rightarrow> user \<Rightarrow> thrown + user" where
  "addRefreshToken tokenHash jti expiresAt deviceInfo now this =
     (if valid_refresh_descriptor
           \<lparr>rt_tokenHash = tokenHash, rt_jti = jti, rt_expiresAt = expiresAt,
            rt_deviceInfo = deviceInfo, rt_lastUsed = now, rt_isRevoked = False\<rparr>
      then Inr (addRefreshToken_assign tokenHash jti expiresAt deviceInfo now this)
      else Inl ValidationError)"

fun revoke_first :: "string \<Rightarrow> refresh_descriptor list \<Rightarrow> refresh_descriptor list" where
  \<comment> \<open>\<^verbatim>\<open>find(rt => rt.jti === jti)\<close>, then \<^verbatim>\<open>token.isRevoked = true\<close>\<close>
  "revoke_first jti [] = []"
| "revoke_first jti (rt # rts) =
     (if rt_jti rt = jti then rt\<lparr>rt_isRevoked := True\<rparr> # rts else rt # revoke_first jti rts)"

definition revokeRefreshToken :: "string \<Rightarrow> user \<Rightarrow> user" where
  "revokeRefreshToken jti this = this\<lparr>u_refreshTokens := revoke_first jti (u_refreshTokens this)\<rparr>"

definition revokeAllRefreshTokens :: "user \<Rightarrow> user" where
  "revokeAllRefreshTokens this =
     this\<lparr>u_refreshTokens := map (\<lambda>token. token\<lparr>rt_isRevoked := True\<rparr>) (u_refreshTokens this)\<rparr>"

text \<open>
  \<open>recordLogin\<close> stores its \<^verbatim>\<open>location\<close> argument with the entry; nothing reads it, its
  paths have no validator, and it is left out of the entry here.
\<close>

definition recordLogin_assign :: "string \<Rightarrow> string \<Rightarrow> bool \<Rightarrow> int \<Rightarrow> user \<Rightarrow> user" where
  "recordLogin_assign ip userAgent success now this =
     (let pushed = loginHistory this @
            [\<lparr>lh_timestamp = now, lh_ip = ip, lh_userAgent = userAgent, lh_success = success,
              lh_deviceFingerprint = MD5_16 (ip @ '':'' @ userAgent)\<rparr>];
          this1 = this\<lparr>loginHistory := (if length pushed > 50 then slice_last 50 pushed else pushed)\<rparr>
      in if success
         then this1\<lparr>lastLogin := Some now, lastLoginIP := ip, lastActiveAt := now\<rparr>
         else this1)"

definition recordLogin :: "string \<Rightarrow> string \<Rightarrow> bool \<Rightarrow> int \<Rightarrow> user \<Rightarrow> thrown + user" where
  \<comment> \<open>the entry pushed is validated, and \<^verbatim>\<open>lastLoginIP\<close> when it is assigned\<close>
  "recordLogin ip userAgent success now this =
     (if valid_login_record
           \<lparr>lh_timestamp = now, lh_ip = ip, lh_userAgent = userAgent, lh_success = success,
            lh_deviceFingerprint = MD5_16 (ip @ '':'' @ userAgent)\<rparr> \<and>
         (if success then valid_lastLoginIP ip else True)
      then Inr (recordLogin_assign ip userAgent success now this)
      else Inl ValidationError)"

definition updateLastActive :: "int \<Rightarrow> user \<Rightarrow> user" where
  "updateLastActive now this = this\<lparr>lastActiveAt := now\<rparr>"

definition pre_save_password :: "int \<Rightarrow> user \<Rightarrow> user" where
  \<comment> \<open>the \<^verbatim>\<open>pre('save')\<close> hook of an existing document whose password was assigned\<close>
  "pre_save_password now this =
     (case password this of
        Some (Plain pw) \<Rightarrow>
          (let pushed = (if pw \<noteq> []
                         then passwordHistory this @
                                [\<lparr>ph_passwordHash = Plain pw, ph_changedAt = now\<rparr>]
                         else passwordHistory this);
               history = (if length pushed > 5 then slice_last 5 pushed else pushed)
           in this\<lparr>passwordHistory := history, password := Some (Bcrypt pw),
                    passwordLastChanged := now\<rparr>)
      | _ \<Rightarrow> this)"

subsection \<open>The store\<close>

text \<open>
  The store is the list of its records. \<open>find_record\<close> is the lookup of a record by the
  text of its \<^verbatim>\<open>_id\<close>, which is 24 hexadecimal digits in lower case; \<open>findById\<close> is
  the query \<^verbatim>\<open>User.findById(id)\<close>, which first casts its argument to an ObjectId: an
  absent argument is the query for \<^verbatim>\<open>null\<close>, which finds nothing; a string of 24
  hexadecimal digits, in either case, is the identifier that it denotes; any other
  string makes the cast throw.
\<close>

type_synonym store = "user list"

definition find_record :: "store \<Rightarrow> string \<Rightarrow> user option" where
  "find_record db uid = find (\<lambda>u. u_id u = uid) db"

definition toLowerCase :: "string \<Rightarrow> string" where
  "toLowerCase s =
     map (\<lambda>c. if 65 \<le> (of_char c :: nat) \<and> (of_char c :: nat) \<le> 90
              then char_of ((of_char c :: nat) + 32) else c) s"

definition isValidObjectId :: "string \<Rightarrow> bool" where
  "isValidObjectId s = (length s = 24 \<and> list_all is_hex s)"

definition findById :: "store \<Rightarrow> string \<Rightarrow> thrown + user option" where
  "findById db uid =
     (if uid = [] then Inr None
      else if isValidObjectId uid then Inr (find_record db (toLowerCase uid))
      else Inl CastError)"

definition js_trim :: "string \<Rightarrow> string" where
  "js_trim s = rev (dropWhile is_space (rev (dropWhile is_space s)))"

definition findByEmail :: "store \<Rightarrow> string \<Rightarrow> user option" where
  \<comment> \<open>\<^verbatim>\<open>findOne({email: email.toLowerCase(), status: {$ne: 'deleted'}})\<close>; the query casts
      the value by the setters of the path \<^verbatim>\<open>email\<close> (\<^verbatim>\<open>lowercase\<close>, \<^verbatim>\<open>trim\<close>)\<close>
  "findByEmail db e =
     find (\<lambda>u. email u = js_trim (toLowerCase (toLowerCase e)) \<and> status u \<noteq> ''deleted'') db"

definition put :: "user \<Rightarrow> store \<Rightarrow> store" where
  \<comment> \<open>write a record back under its \<^verbatim>\<open>_id\<close>\<close>
  "put u db = map (\<lambda>v. if u_id v = u_id u then u else v) db"

section \<open>Token issuer (middleware/authMiddleware.js)\<close>

record identity =
  i_id :: string
  i_email :: string
  i_role :: string

definition generateToken :: "env \<Rightarrow> int \<Rightarrow> string \<Rightarrow> identity \<Rightarrow> jwt" where
  \<comment> \<open>\<open>uuid\<close> is the value of \<^verbatim>\<open>crypto.randomUUID()\<close>\<close>
  "generateToken e now uuid payload =
     (let tokenPayload =
            \<lparr>p_id = i_id payload, p_email = i_email payload,
             p_role = js_or (i_role payload) ''user'', p_tokenType = ''access'',
             p_iat = now div 1000, p_jti = uuid, p_exp = None, p_nbf = None,
             p_iss = [], p_aud = []\<rparr>
      in jwt_sign tokenPayload (getCurrentJWTSecret e)
           \<lparr>expiresIn = access_expiresIn e, issuer = jwt_issuer e, audience = jwt_audience e\<rparr>)"

definition generateRefreshToken :: "env \<Rightarrow> int \<Rightarrow> string \<Rightarrow> identity \<Rightarrow> mem \<Rightarrow> jwt \<times> mem" where
  "generateRefreshToken e now uuid payload m =
     (let tokenPayload =
            \<lparr>p_id = i_id payload, p_email = i_email payload, p_role = [],
             p_tokenType = ''refresh'', p_iat = now div 1000, p_jti = uuid, p_exp = None,
             p_nbf = None, p_iss = [], p_aud = []\<rparr>;
          refreshToken = jwt_sign tokenPayload (getRefreshSecret e)
            \<lparr>expiresIn = refresh_expiresIn e, issuer = jwt_issuer e, audience = jwt_audience e\<rparr>
      in (refreshToken,
          m\<lparr>refreshTokens := AList.update (p_jti tokenPayload)
                \<lparr>ti_userId = i_id payload, ti_email = i_email payload,
                 ti_createdAt = now, ti_lastUsed = now\<rparr> (refreshTokens m)\<rparr>))"

section \<open>Responses\<close>

datatype js_value =
    Null
  | Bool bool
  | Num int
  | Str string
  | DigestV digest
  | HashV stored_password
  | Arr "js_value list"
  | Obj "(string \<times> js_value) list"

type_synonym js_object = "(string \<times> js_value) list"

datatype message = Text string | Template string int string

record response =
  http_status :: nat
  success :: bool
  message :: message
  data_user :: "js_object option"
  data_accessToken :: "jwt option"
  data_refreshToken :: "jwt option"

definition reply :: "nat \<Rightarrow> message \<Rightarrow> response" where
  \<comment> \<open>\<^verbatim>\<open>res.status(code).json({success: false, message})\<close>\<close>
  "reply code msg = \<lparr>http_status = code, success = False, message = msg, data_user = None,
     data_accessToken = None, data_refreshToken = None\<rparr>"

definition minutes_remaining :: "int \<Rightarrow> int \<Rightarrow> int" where
  \<comment> \<open>\<^verbatim>\<open>Math.ceil((lockUntil - Date.now()) / (1000 * 60))\<close>\<close>
  "minutes_remaining l now = - ((- (l - now)) div (1000 * 60))"

section \<open>Session middleware\<close>

record req_user =
  ru_id :: string
  ru_email :: string
  ru_role :: string
  ru_tokenId :: string
  ru_fullName :: string
  ru_profileImageUrl :: string

text \<open>
  The \<^verbatim>\<open>Authorization\<close> header is given by its words, the result of
  \<^verbatim>\<open>authHeader.split(' ')\<close>; \<open>None\<close> is a request without the header.
\<close>

definition bearer_token :: "jwt list option \<Rightarrow> jwt" where
  \<comment> \<open>\<^verbatim>\<open>authHeader && authHeader.split(' ')[1]\<close>\<close>
  "bearer_token authHeader =
     (case authHeader of
        None \<Rightarrow> Malformed []
      | Some ws \<Rightarrow> if 1 < length ws then ws ! 1 else Malformed [])"

definition authenticateToken_catch :: "thrown \<Rightarrow> response" where
  "authenticateToken_catch error =
     (if error = JsonWebTokenError then reply 401 (Text ''Invalid token format'')
      else if error = TokenExpiredError
        then reply 401 (Text ''Token has expired. Please login again.'')
      else if error = NotBeforeError then reply 401 (Text ''Token not active yet'')
      else reply 500 (Text ''Authentication failed''))"

definition authenticateToken ::
  "env \<Rightarrow> store \<Rightarrow> int \<Rightarrow> jwt list option \<Rightarrow> mem \<Rightarrow> (response + req_user \<times> jwt) \<times> mem" where
  \<comment> \<open>\<open>Inr (req.user, req.token)\<close> is the call of \<^verbatim>\<open>next()\<close>\<close>
  "authenticateToken e db now authHeader m =
     (let token = bearer_token authHeader
      in if falsy_token token then (Inl (reply 401 (Text ''Access token is required'')), m)
         else if isTokenBlacklisted m token
           then (Inl (reply 401 (Text ''Token has been revoked'')), m)
         else
           case jwt_verify token (getCurrentJWTSecret e) (jwt_issuer e) (jwt_audience e) now of
             Inl error \<Rightarrow> (Inl (authenticateToken_catch error), m)
           | Inr decoded \<Rightarrow>
               if p_tokenType decoded \<noteq> ''access''
               then (Inl (reply 401 (Text ''Invalid token type'')), m)
               else
                 case findById db (p_id decoded) of
                   Inl error \<Rightarrow> (Inl (authenticateToken_catch error), m)
                 | Inr None \<Rightarrow>
                     (Inl (reply 401 (Text ''User no longer exists'')), blacklistToken token m)
                 | Inr (Some user) \<Rightarrow>
                     if status user \<noteq> [] \<and> status user \<noteq> ''active''
                     then (Inl (reply 401 (Text ''Account has been deactivated'')), m)
                     else
                       let admitted =
                             (Inr (\<lparr>ru_id = p_id decoded, ru_email = p_email decoded,
                                    ru_role = js_or (p_role decoded) ''user'',
                                    ru_tokenId = p_jti decoded, ru_fullName = fullName user,
                                    ru_profileImageUrl = profileImageUrl user\<rparr>, token), m)
                       in case lockUntil user of
                            None \<Rightarrow> admitted
                          | Some l \<Rightarrow>
                              if l > now
                              then (Inl (reply 423
                                      (Template ''Account is temporarily locked. Try again in ''
                                         (minutes_remaining l now) '' minutes.'')), m)
                              else admitted)"

section \<open>The refresh-token endpoint\<close>

definition refreshAccessToken_catch :: "thrown \<Rightarrow> response" where
  "refreshAccessToken_catch error =
     (if error = JsonWebTokenError \<or> error = TokenExpiredError
      then reply 401 (Text ''Invalid or expired refresh token'')
      else reply 500 (Text ''Token refresh failed''))"

definition refreshAccessToken ::
  "env \<Rightarrow> store \<Rightarrow> int \<Rightarrow> string \<Rightarrow> string \<Rightarrow> jwt \<Rightarrow> mem \<Rightarrow> response \<times> mem" where
  \<comment> \<open>\<open>uuid1\<close> and \<open>uuid2\<close> are the identifiers drawn for the new access and refresh token\<close>
  "refreshAccessToken e db now uuid1 uuid2 refreshToken m =
     (if falsy_token refreshToken then (reply 401 (Text ''Refresh token is required''), m)
      else if isTokenBlacklisted m refreshToken
        then (reply 401 (Text ''Refresh token has been revoked''), m)
      else
        case jwt_verify refreshToken (getRefreshSecret e) (jwt_issuer e) (jwt_audience e) now of
          Inl error \<Rightarrow> (refreshAccessToken_catch error, m)
        | Inr decoded \<Rightarrow>
            if p_tokenType decoded \<noteq> ''refresh''
            then (reply 401 (Text ''Invalid refresh token type''), m)
            else
              case map_of (refreshTokens m) (p_jti decoded) of
                None \<Rightarrow> (reply 401 (Text ''Refresh token not found or expired''), m)
              | Some tokenInfo \<Rightarrow>
                  (case findById db (p_id decoded) of
                     Inl error \<Rightarrow> (refreshAccessToken_catch error, m)
                   | Inr None \<Rightarrow>
                       (let m1 = blacklistToken refreshToken m
                        in (reply 401 (Text ''User no longer exists or account is inactive''),
                            m1\<lparr>refreshTokens := AList.delete (p_jti decoded) (refreshTokens m1)\<rparr>))
                   | Inr (Some user) \<Rightarrow>
                       if status user \<noteq> [] \<and> status user \<noteq> ''active''
                       then
                         (let m1 = blacklistToken refreshToken m
                          in (reply 401 (Text ''User no longer exists or account is inactive''),
                              m1\<lparr>refreshTokens := AList.delete (p_jti decoded) (refreshTokens m1)\<rparr>))
                       else
                         (let newAccessToken = generateToken e now uuid1
                                \<lparr>i_id = u_id user, i_email = email user, i_role = role user\<rparr>;
                              (newRefreshToken, m1) = generateRefreshToken e now uuid2
                                \<lparr>i_id = u_id user, i_email = email user, i_role = []\<rparr> m;
                              m2 = blacklistToken refreshToken m1;
                              m3 = m2\<lparr>refreshTokens := AList.delete (p_jti decoded) (refreshTokens m2)\<rparr>;
                              newJti = (case jwt_decode newRefreshToken of
                                          None \<Rightarrow> [] | Some d \<Rightarrow> p_jti d);
                              m4 = (case map_of (refreshTokens m3) newJti of
                                      None \<Rightarrow> m3
                                    | Some newTokenInfo \<Rightarrow>
                                        m3\<lparr>refreshTokens := AList.update newJti
                                             (newTokenInfo\<lparr>ti_lastUsed := now\<rparr>) (refreshTokens m3)\<rparr>)
                          in (\<lparr>http_status = 200, success = True,
                               message = Text ''Token refreshed successfully'',
                               data_user = Some [(''id'', Str (u_id user)),
                                 (''fullName'', Str (fullName user)), (''email'', Str (email user)),
                                 (''role'', Str (role user))],
                               data_accessToken = Some newAccessToken,
                               data_refreshToken = Some newRefreshToken\<rparr>, m4))))"

section \<open>JSON serialization of the credential record\<close>

definition str_field :: "string \<Rightarrow> string \<Rightarrow> js_object" where
  \<comment> \<open>a string property; an absent one is no property of the object\<close>
  "str_field k v = (if v = [] then [] else [(k, Str v)])"

definition date_field :: "string \<Rightarrow> int option \<Rightarrow> js_object" where
  \<comment> \<open>a date property whose default is null\<close>
  "date_field k v = [(k, case v of None \<Rightarrow> Null | Some t \<Rightarrow> Num t)]"

definition login_record_value :: "login_record \<Rightarrow> js_value" where
  "login_record_value h =
     Obj [(''timestamp'', Num (lh_timestamp h)), (''ip'', Str (lh_ip h)),
          (''userAgent'', Str (lh_userAgent h)), (''success'', Bool (lh_success h)),
          (''deviceFingerprint'', DigestV (lh_deviceFingerprint h))]"

definition refresh_descriptor_value :: "refresh_descriptor \<Rightarrow> js_value" where
  "refresh_descriptor_value rt =
     Obj [(''tokenHash'', DigestV (rt_tokenHash rt)), (''jti'', Str (rt_jti rt)),
          (''expiresAt'', Num (rt_expiresAt rt)), (''deviceInfo'', Str (rt_deviceInfo rt)),
          (''lastUsed'', Num (rt_lastUsed rt)), (''isRevoked'', Bool (rt_isRevoked rt))]"

definition password_record_value :: "password_record \<Rightarrow> js_value" where
  "password_record_value h =
     Obj [(''passwordHash'', HashV (ph_passwordHash h)), (''changedAt'', Num (ph_changedAt h))]"

definition plain_object :: "user \<Rightarrow> js_object" where
  \<comment> \<open>the plain object that mongoose hands to the \<^verbatim>\<open>toJSON\<close> transform as \<^verbatim>\<open>ret\<close>\<close>
  "plain_object u =
     [(''_id'', Str (u_id u))] @ str_field ''fullName'' (fullName u) @
     str_field ''email'' (email u) @
     (case password u of None \<Rightarrow> [] | Some h \<Rightarrow> [(''password'', HashV h)]) @
     str_field ''profileImageUrl'' (profileImageUrl u) @ str_field ''status'' (status u) @
     str_field ''role'' (role u) @
     [(''loginAttempts'', Num (loginAttempts u))] @ date_field ''lockUntil'' (lockUntil u) @
     [(''maxLoginAttempts'', Num (maxLoginAttempts u)), (''lockTime'', Num (lockTime u))] @
     date_field ''lastLogin'' (lastLogin u) @ str_field ''lastLoginIP'' (lastLoginIP u) @
     [(''loginHistory'', Arr (map login_record_value (loginHistory u))),
      (''refreshTokens'', Arr (map refresh_descriptor_value (u_refreshTokens u))),
      (''twoFactorEnabled'', Bool (twoFactorEnabled u))] @
     str_field ''twoFactorSecret'' (twoFactorSecret u) @
     [(''backupCodes'', Arr (map Str (backupCodes u)))] @
     str_field ''resetPasswordToken'' (resetPasswordToken u) @
     str_field ''emailVerificationToken'' (emailVerificationToken u) @
     date_field ''emailVerificationExpires'' (emailVerificationExpires u) @
     [(''passwordHistory'', Arr (map password_record_value (passwordHistory u))),
      (''passwordLastChanged'', Num (passwordLastChanged u)),
      (''emailVerified'', Bool (emailVerified u)), (''lastActiveAt'', Num (lastActiveAt u)),
      (''createdAt'', Num (createdAt u)), (''__v'', Num 0)]"

definition toJSON_transform :: "(string \<times> 'v) list \<Rightarrow> (string \<times> 'v) list" where
  \<comment> \<open>the \<^verbatim>\<open>transform\<close> of the schema's \<^verbatim>\<open>toJSON\<close> option, on any plain object;
      \<^verbatim>\<open>ret.id = ret._id\<close> of an object without \<^verbatim>\<open>_id\<close> leaves no \<^verbatim>\<open>id\<close> in the JSON text\<close>
  "toJSON_transform ret =
     (let ret1 = AList.delete ''password'' ret;
          ret2 = AList.delete ''refreshTokens'' ret1;
          ret3 = AList.delete ''twoFactorSecret'' ret2;
          ret4 = AList.delete ''resetPasswordToken'' ret3;
          ret5 = AList.delete ''emailVerificationToken'' ret4;
          ret6 = AList.delete ''passwordHistory'' ret5;
          ret7 = AList.delete ''backupCodes'' ret6;
          ret8 = AList.delete ''__v'' ret7;
          ret9 = (case map_of ret8 ''_id'' of
                    None \<Rightarrow> AList.delete ''id'' ret8
                  | Some v \<Rightarrow> AList.update ''id'' v ret8)
      in AList.delete ''_id'' ret9)"

definition toJSON :: "user \<Rightarrow> js_object" where
  "toJSON u = toJSON_transform (plain_object u)"

section \<open>The authentication controller\<close>

record login_request =
  lr_email :: string
  lr_password :: string
  lr_clientIP :: string
  lr_userAgent :: string

text \<open>
  A handler works on the document it fetched (\<open>user\<close>) and on the record in the store
  (\<open>persisted\<close>). A method that ends in \<^verbatim>\<open>this.save()\<close> changes both alike: it writes
  the paths it assigned, and the handlers never assign the two lockout fields. A method
  that ends in \<^verbatim>\<open>this.updateOne(...)\<close> changes the record in the store only, so the
  fetched document keeps the lockout fields it was read with. An exception leaves the
  \<^verbatim>\<open>try\<close> block for the \<^verbatim>\<open>catch\<close> block of the handler, with the store and the registries
  as the statements before it left them. What a handler writes to the console is left
  out.
\<close>

definition loginUser_catch :: "thrown \<Rightarrow> response" where
  "loginUser_catch err = reply 500 (Text ''Login failed. Please try again later.'')"

definition loginUser ::
  "env \<Rightarrow> int \<Rightarrow> string \<Rightarrow> string \<Rightarrow> login_request \<Rightarrow> store \<times> mem \<Rightarrow> response \<times> store \<times> mem" where
  "loginUser e now uuid1 uuid2 req s =
     (let db = fst s; m = snd s; clientIP = lr_clientIP req;
          userAgent = js_or (lr_userAgent req) ''Unknown''
      in case findByEmail db (lr_email req) of
           None \<Rightarrow> (reply 401 (Text ''Invalid credentials''), db, m)
         | Some user \<Rightarrow>
             if status user \<noteq> ''active''
             then
               (case recordLogin clientIP userAgent False now user of
                  Inl err \<Rightarrow> (loginUser_catch err, db, m)
                | Inr user1 \<Rightarrow>
                    (reply 403 (Text (if status user = ''suspended''
                                      then ''Account suspended. Contact support.''
                                      else ''Account inactive. Contact support.'')),
                     put user1 db, m))
             else if isLocked user now
             then
               (case recordLogin clientIP userAgent False now user of
                  Inl err \<Rightarrow> (loginUser_catch err, db, m)
                | Inr user1 \<Rightarrow>
                    (reply 423 (Template ''Account temporarily locked. Try again in ''
                                 (minutes_remaining (date_value (lockUntil user)) now)
                                 '' minutes.''),
                     put user1 db, m))
             else if \<not> comparePassword user (lr_password req)
             then
               (case recordLogin clientIP userAgent False now user of
                  Inl err \<Rightarrow> (loginUser_catch err, db, m)
                | Inr user1 \<Rightarrow>
                    (let persisted = updateOne (incLoginAttempts user1 now) user1;
                         remainingAttempts = attemptsRemaining user1
                     in (reply 401
                           (if remainingAttempts > 0
                            then Template ''Invalid credentials. '' remainingAttempts
                                   '' attempts remaining.''
                            else Text ''Invalid credentials. Account will be temporarily locked.''),
                         put persisted db, m)))
             else
               (case isPasswordInHistory user (lr_password req) of
                  Inl err \<Rightarrow> (loginUser_catch err, db, m)
                | Inr reused \<Rightarrow>
                    (let persisted0 = updateOne resetLoginAttempts user
                     in case recordLogin clientIP userAgent True now user of
                          Inl err \<Rightarrow> (loginUser_catch err, put persisted0 db, m)
                        | Inr user1 \<Rightarrow>
                            (let persisted1 = recordLogin_assign clientIP userAgent True now persisted0;
                                 user2 = updateLastActive now user1;
                                 persisted2 = updateLastActive now persisted1;
                                 tokenPayload =
                                   \<lparr>i_id = u_id user2, i_email = email user2, i_role = role user2\<rparr>;
                                 accessToken = generateToken e now uuid1 tokenPayload;
                                 (refreshToken, m1) = generateRefreshToken e now uuid2 tokenPayload m;
                                 refreshTokenHash = SHA256_hex refreshToken
                             in case jwt_decode refreshToken of
                                  None \<Rightarrow> (loginUser_catch TypeError, put persisted2 db, m1)
                                | Some decoded \<Rightarrow>
                                    (case p_exp decoded of
                                       None \<Rightarrow>
                                         (loginUser_catch ValidationError, put persisted2 db, m1)
                                     | Some exp \<Rightarrow>
                                         (let deviceInfo = userAgent @ '' - '' @ clientIP
                                          in case addRefreshToken refreshTokenHash (p_jti decoded)
                                                    (exp * 1000) deviceInfo now user2 of
                                               Inl err \<Rightarrow>
                                                 (loginUser_catch err, put persisted2 db, m1)
                                             | Inr user3 \<Rightarrow>
                                                 (let persisted3 = addRefreshToken_assign
                                                        refreshTokenHash (p_jti decoded)
                                                        (exp * 1000) deviceInfo now persisted2;
                                                      userResponse = AList.delete ''lockUntil''
                                                        (AList.delete ''loginAttempts''
                                                           (toJSON user3))
                                                  in (\<lparr>http_status = 200, success = True,
                                                       message = Text ''Login successful'',
                                                       data_user = Some userResponse,
                                                       data_accessToken = Some accessToken,
                                                       data_refreshToken = Some refreshToken\<rparr>,
                                                      put persisted3 db, m1))))))))"

definition logoutAllDevices :: "req_user \<Rightarrow> store \<Rightarrow> response \<times> store" where
  "logoutAllDevices ruser db =
     (case findById db (ru_id ruser) of
        Inl err \<Rightarrow> (reply 500 (Text ''Failed to logout from all devices''), db)
      | Inr None \<Rightarrow> (reply 404 (Text ''User not found''), db)
      | Inr (Some user) \<Rightarrow>
          (\<lparr>http_status = 200, success = True,
            message = Text ''Logged out from all devices successfully'', data_user = None,
            data_accessToken = None, data_refreshToken = None\<rparr>,
           put (revokeAllRefreshTokens user) db))"

definition changePassword :: "int \<Rightarrow> req_user \<Rightarrow> string \<Rightarrow> string \<Rightarrow> store \<Rightarrow> response \<times> store" where
  \<comment> \<open>the \<^verbatim>\<open>save\<close> of \<^verbatim>\<open>revokeAllRefreshTokens\<close> validates the password that was assigned
      and runs the \<^verbatim>\<open>pre('save')\<close> hook; the \<^verbatim>\<open>save\<close> after it finds nothing to write\<close>
  "changePassword now ruser currentPassword newPassword db =
     (case findById db (ru_id ruser) of
        Inl err \<Rightarrow> (reply 500 (Text ''Failed to change password''), db)
      | Inr None \<Rightarrow> (reply 404 (Text ''User not found''), db)
      | Inr (Some user) \<Rightarrow>
          if \<not> comparePassword user currentPassword
          then (reply 400 (Text ''Current password is incorrect''), db)
          else
            case isPasswordInHistory user newPassword of
              Inl err \<Rightarrow> (reply 500 (Text ''Failed to change password''), db)
            | Inr reused \<Rightarrow>
                if reused then (reply 400 (Text ''Cannot reuse a previous password''), db)
                else if \<not> valid_password newPassword
                then (reply 500 (Text ''Failed to change password''), db)
                else
                  (let user1 = user\<lparr>password := Some (Plain newPassword),
                                     passwordLastChanged := now\<rparr>;
                       user2 = pre_save_password now (revokeAllRefreshTokens user1)
                   in (\<lparr>http_status = 200, success = True,
                        message = Text
                          ''Password changed successfully. Please login again with your new password.'',
                        data_user = None, data_accessToken = None, data_refreshToken = None\<rparr>,
                       put user2 db)))"

record register_request =
  rr_fullName :: string
  rr_email :: string
  rr_password :: string
  rr_profileImageUrl :: string
  rr_clientIP :: string
  rr_userAgent :: string

definition new_user :: "env \<Rightarrow> int \<Rightarrow> string \<Rightarrow> register_request \<Rightarrow> user" where
  \<comment> \<open>the document that \<^verbatim>\<open>User.create({...})\<close> of \<^verbatim>\<open>registerUser\<close> builds: the fields given,
      after the setters of their paths, the schema's defaults for the others, the password
      as the \<^verbatim>\<open>pre('save')\<close> hook hashes it; \<open>oid\<close> is the new \<^verbatim>\<open>_id\<close>\<close>
  "new_user e now oid req =
     \<lparr>u_id = oid, fullName = js_trim (rr_fullName req),
      email = js_trim (toLowerCase (rr_email req)),
      password = Some (Bcrypt (rr_password req)), profileImageUrl = rr_profileImageUrl req,
      status = ''active'', role = ''user'', loginAttempts = 0, lockUntil = None,
      maxLoginAttempts = default_maxLoginAttempts e, lockTime = default_lockTime e,
      lastLogin = None, lastLoginIP = [], loginHistory = [], u_refreshTokens = [],
      twoFactorEnabled = False, twoFactorSecret = [], backupCodes = [],
      resetPasswordToken = [], emailVerificationToken = [], emailVerificationExpires = None,
      passwordHistory = [], passwordLastChanged = now, emailVerified = False,
      lastActiveAt = now, createdAt = now\<rparr>"

definition create_user :: "env \<Rightarrow> int \<Rightarrow> string \<Rightarrow> register_request \<Rightarrow> thrown + user" where
  \<comment> \<open>\<^verbatim>\<open>User.create({...})\<close> of \<^verbatim>\<open>registerUser\<close>: the paths given are validated, after their
      setters and before the password is hashed, and the document is stored when they
      pass\<close>
  "create_user e now oid req =
     (if valid_fullName (js_trim (rr_fullName req)) \<and>
         valid_email (js_trim (toLowerCase (rr_email req))) \<and>
         valid_password (rr_password req) \<and>
         valid_profileImageUrl (rr_profileImageUrl req)
      then Inr (new_user e now oid req)
      else Inl ValidationError)"

definition registerUser_data :: "user \<Rightarrow> js_object" where
  \<comment> \<open>the member \<^verbatim>\<open>user\<close> of the response of \<^verbatim>\<open>registerUser\<close>, built field by field\<close>
  "registerUser_data user =
     [(''id'', Str (u_id user))] @ str_field ''fullName'' (fullName user) @
     str_field ''email'' (email user) @ str_field ''profileImageUrl'' (profileImageUrl user) @
     str_field ''role'' (role user) @ str_field ''status'' (status user) @
     [(''emailVerified'', Bool (emailVerified user)), (''createdAt'', Num (createdAt user))]"

definition registerUser_catch :: "thrown \<Rightarrow> response" where
  \<comment> \<open>the list \<^verbatim>\<open>errors\<close> of the 400 response is left out\<close>
  "registerUser_catch err =
     (if err = ValidationError then reply 400 (Text ''Validation failed'')
      else reply 500 (Text ''Registration failed. Please try again later.''))"

definition registerUser ::
  "env \<Rightarrow> int \<Rightarrow> string \<Rightarrow> string \<Rightarrow> string \<Rightarrow> register_request \<Rightarrow> store \<times> mem
     \<Rightarrow> response \<times> store \<times> mem" where
  \<comment> \<open>the email verification token that the handler draws last is never saved nor sent\<close>
  "registerUser e now oid uuid1 uuid2 req s =
     (let db = fst s; m = snd s; clientIP = rr_clientIP req;
          userAgent = js_or (rr_userAgent req) ''Unknown''
      in case findByEmail db (rr_email req) of
           Some existingUser \<Rightarrow>
             (reply 409 (Text ''An account with this email already exists''), db, m)
         | None \<Rightarrow>
             (case create_user e now oid req of
                Inl err \<Rightarrow> (registerUser_catch err, db, m)
              | Inr user \<Rightarrow>
                  (case recordLogin clientIP userAgent True now user of
                     Inl err \<Rightarrow> (registerUser_catch err, db @ [user], m)
                   | Inr user1 \<Rightarrow>
                       (let tokenPayload =
                              \<lparr>i_id = u_id user1, i_email = email user1, i_role = role user1\<rparr>;
                            accessToken = generateToken e now uuid1 tokenPayload;
                            (refreshToken, m1) = generateRefreshToken e now uuid2 tokenPayload m;
                            refreshTokenHash = SHA256_hex refreshToken
                        in case jwt_decode refreshToken of
                             None \<Rightarrow> (registerUser_catch TypeError, db @ [user1], m1)
                           | Some decoded \<Rightarrow>
                               (case p_exp decoded of
                                  None \<Rightarrow> (registerUser_catch ValidationError, db @ [user1], m1)
                                | Some exp \<Rightarrow>
                                    (let deviceInfo =
                                           js_or (rr_userAgent req) ''undefined'' @ '' - '' @ clientIP
                                     in case addRefreshToken refreshTokenHash (p_jti decoded)
                                               (exp * 1000) deviceInfo now user1 of
                                          Inl err \<Rightarrow> (registerUser_catch err, db @ [user1], m1)
                                        | Inr user2 \<Rightarrow>
                                            (\<lparr>http_status = 201, success = True,
                                              message = Text ''Account created successfully'',
                                              data_user = Some (registerUser_data user2),
                                              data_accessToken = Some accessToken,
                                              data_refreshToken = Some refreshToken\<rparr>,
                                             db @ [user2], m1)))))))"

text \<open>
  \<open>getUserInfo\<close> excludes six paths from the document that it fetches, \<^verbatim>\<open>refreshTokens\<close>
  among them, and builds its response from the document: \<^verbatim>\<open>user.refreshTokens\<close> is
  \<^verbatim>\<open>undefined\<close> there, and \<^verbatim>\<open>user.refreshTokens.filter(...)\<close> throws a \<^verbatim>\<open>TypeError\<close> while
  the argument of \<^verbatim>\<open>res.status(200).json\<close> is evaluated.
\<close>

record projection =
  doc :: user
  refreshTokens_selected :: bool

definition getUserInfo_select :: "user \<Rightarrow> projection" where
  \<comment> \<open>the projection of \<^verbatim>\<open>getUserInfo\<close>: the paths that it excludes are absent from the
      document\<close>
  "getUserInfo_select u =
     \<lparr>doc = u\<lparr>password := None, u_refreshTokens := [], twoFactorSecret := [],
              resetPasswordToken := [], emailVerificationToken := [], passwordHistory := []\<rparr>,
      refreshTokens_selected = False\<rparr>"

definition activeTokens :: "projection \<Rightarrow> int \<Rightarrow> thrown + nat" where
  \<comment> \<open>\<^verbatim>\<open>user.refreshTokens.filter(rt => !rt.isRevoked && rt.expiresAt > new Date()).length\<close>\<close>
  "activeTokens user now =
     (if refreshTokens_selected user
      then Inr (length (filter (\<lambda>rt. \<not> rt_isRevoked rt \<and> rt_expiresAt rt > now)
                          (u_refreshTokens (doc user))))
      else Inl TypeError)"

definition getUserInfo :: "int \<Rightarrow> req_user \<Rightarrow> store \<Rightarrow> response \<times> store" where
  \<comment> \<open>of the response data, the member \<^verbatim>\<open>user\<close>\<close>
  "getUserInfo now ruser db =
     (case findById db (ru_id ruser) of
        Inl err \<Rightarrow> (reply 500 (Text ''Failed to retrieve user information''), db)
      | Inr None \<Rightarrow> (reply 404 (Text ''User profile not found''), db)
      | Inr (Some persisted) \<Rightarrow>
          (let user = getUserInfo_select persisted
           in if status (doc user) \<noteq> ''active''
              then (reply 403 (Text ''Account access restricted''), db)
              else
                (let user1 = user\<lparr>doc := updateLastActive now (doc user)\<rparr>;
                     persisted1 = updateLastActive now persisted
                 in case activeTokens user1 now of
                      Inl err \<Rightarrow>
                        (reply 500 (Text ''Failed to retrieve user information''),
                         put persisted1 db)
                    | Inr n \<Rightarrow>
                        (\<lparr>http_status = 200, success = True, message = Text [],
                          data_user = Some (toJSON (doc user1)), data_accessToken = None,
                          data_refreshToken = None\<rparr>,
                         put persisted1 db))))"
section \<open>Sequences of login attempts\<close>

fun run_logins ::
  "env \<Rightarrow> (int \<times> string \<times> string \<times> login_request) list \<Rightarrow> store \<times> mem \<Rightarrow> store \<times> mem" where
  "run_logins e [] s = s"
| "run_logins e ((now, uuid1, uuid2, req) # attempts) s =
     run_logins e attempts (snd (loginUser e now uuid1 uuid2 req s))"

definition same_account :: "user \<Rightarrow> user \<Rightarrow> bool" where
  "same_account u u' \<longleftrightarrow>
     u_id u' = u_id u \<and> email u' = email u \<and> status u' = status u \<and>
     password u' = password u \<and> maxLoginAttempts u' = maxLoginAttempts u \<and>
     lockTime u' = lockTime u \<and> role u' = role u \<and> passwordHistory u' = passwordHistory u"

text \<open>
  The requests whose login record the store accepts: the client address is present and
  the user agent has at most 500 characters, and for the record of a successful login
  the address has the format that the validator of \<^verbatim>\<open>lastLoginIP\<close> demands. The
  descriptor of the refresh token is accepted when the identifier drawn for the token is
  not empty and user agent and address fit into the 200 characters of \<^verbatim>\<open>deviceInfo\<close>.
\<close>

definition login_recorded :: "login_request \<Rightarrow> bool \<Rightarrow> bool" where
  "login_recorded req ok =
     (lr_clientIP req \<noteq> [] \<and> length (js_or (lr_userAgent req) ''Unknown'') \<le> 500 \<and>
      (if ok then valid_lastLoginIP (lr_clientIP req) else True))"

definition descriptor_stored :: "login_request \<Rightarrow> string \<Rightarrow> bool" where
  "descriptor_stored req jti =
     (jti \<noteq> [] \<and>
      length (js_or (lr_userAgent req) ''Unknown'' @ '' - '' @ lr_clientIP req) \<le> 200)"

definition failed_record :: "login_request \<Rightarrow> int \<Rightarrow> user \<Rightarrow> user" where
  "failed_record req now u =
     (let u1 = recordLogin_assign (lr_clientIP req) (js_or (lr_userAgent req) ''Unknown'')
                 False now u
      in updateOne (incLoginAttempts u1 now) u1)"

definition wrong_password :: "string \<Rightarrow> user \<Rightarrow> int \<times> string \<times> string \<times> login_request \<Rightarrow> bool" where
  \<comment> \<open>a login attempt for the account with a wrong password, whose record the store accepts\<close>
  "wrong_password em u a =
     (case a of (now, uuid1, uuid2, req) \<Rightarrow>
        toLowerCase (lr_email req) = toLowerCase em \<and> \<not> comparePassword u (lr_password req) \<and>
        login_recorded req False)"

definition logged_in_record :: "digest \<Rightarrow> string \<Rightarrow> int \<Rightarrow> login_request \<Rightarrow> int \<Rightarrow> user \<Rightarrow> user" where
  "logged_in_record h jti exp_ms req now u =
     (let userAgent = js_or (lr_userAgent req) ''Unknown''
      in addRefreshToken_assign h jti exp_ms (userAgent @ '' - '' @ lr_clientIP req) now
           (updateLastActive now
              (recordLogin_assign (lr_clientIP req) userAgent True now
                 (updateOne resetLoginAttempts u))))"

section \<open>Sample data\<close>

text \<open>A registered account, login requests for it and an empty registry, for closed instances.\<close>

definition alice_request :: register_request where
  "alice_request = \<lparr>rr_fullName = ''Alice'', rr_email = ''alice@example.com'',
     rr_password = ''Passw0rd!'', rr_profileImageUrl = [], rr_clientIP = ''10.0.0.1'',
     rr_userAgent = ''curl''\<rparr>"

definition alice_id :: string where
  "alice_id = ''64b7f1a2c3d4e5f601234567''"

definition alice :: user where
  "alice = new_user empty_env 0 alice_id alice_request"

definition alice_login :: "string \<Rightarrow> login_request" where
  "alice_login pw = \<lparr>lr_email = ''Alice@Example.com'', lr_password = pw,
     lr_clientIP = ''10.0.0.1'', lr_userAgent = ''curl''\<rparr>"

definition five_failures :: "(int \<times> string \<times> string \<times> login_request) list" where
  "five_failures =
     [(1000, ''a1'', ''r1'', alice_login ''guess1''), (2000, ''a2'', ''r2'', alice_login ''guess2''),
      (3000, ''a3'', ''r3'', alice_login ''guess3''), (4000, ''a4'', ''r4'', alice_login ''guess4''),
      (5000, ''a5'', ''r5'', alice_login ''guess5'')]"

definition long_agent :: string where
  \<comment> \<open>a \<^verbatim>\<open>User-Agent\<close> header of 501 characters\<close>
  "long_agent = replicate 501 CHR ''a''"

definition oversized_failures :: "(int \<times> string \<times> string \<times> login_request) list" where
  \<comment> \<open>the five attempts with the long user agent\<close>
  "oversized_failures =
     map (\<lambda>(now, uuid1, uuid2, req). (now, uuid1, uuid2, req\<lparr>lr_userAgent := long_agent\<rparr>))
       five_failures"

definition mapped_login :: "string \<Rightarrow> login_request" where
  \<comment> \<open>a login from an IPv4 client as a dual-stack socket reports its address\<close>
  "mapped_login pw = (alice_login pw)\<lparr>lr_clientIP := ''::ffff:127.0.0.1''\<rparr>"

definition empty_mem :: mem where
  "empty_mem = \<lparr>tokenBlacklist = [], refreshTokens = []\<rparr>"

definition alice_identity :: identity where
  "alice_identity = \<lparr>i_id = alice_id, i_email = ''alice@example.com'', i_role = ''user''\<rparr>"

definition old_access_token :: jwt where
  \<comment> \<open>an access token minted at time 0; it expires at second 3600\<close>
  "old_access_token = generateToken empty_env 0 ''j1'' alice_identity"

definition bearer :: "jwt \<Rightarrow> jwt list option" where
  \<comment> \<open>the header \<^verbatim>\<open>Authorization: Bearer <token>\<close>\<close>
  "bearer token = Some [Malformed ''Bearer'', token]"

definition alice_refresh_token :: jwt where
  "alice_refresh_token = fst (generateRefreshToken empty_env 0 ''r1'' alice_identity empty_mem)"

definition mem_after_login :: mem where
  "mem_after_login = snd (generateRefreshToken empty_env 0 ''r1'' alice_identity empty_mem)"

definition alice_after_login :: user where
  "alice_after_login =
     logged_in_record (SHA256_hex alice_refresh_token) ''r1'' 604800000
       (alice_login ''Passw0rd!'') 0 alice"

definition alice_session :: req_user where
  "alice_session = \<lparr>ru_id = alice_id, ru_email = ''alice@example.com'', ru_role = ''user'',
     ru_tokenId = ''a1'', ru_fullName = ''Alice'', ru_profileImageUrl = []\<rparr>"


definition forged_token :: jwt where
  \<comment> \<open>an access token signed with the key of the environment for a subject that is no
      ObjectId\<close>
  "forged_token = generateToken empty_env 0 ''j2'' (alice_identity\<lparr>i_id := ''nobody''\<rparr>)"
section \<open>The middleware's checks, as the specification lists them\<close>

text \<open>
  The checks of the session middleware in the order in which the specification says they
  are made, each as a predicate of the request and the state on its own, the status that
  the specification gives to a failure of each, and the response that goes with it. The
  subject of a token is read from its payload, verified or not; it is the record that the
  store returns for the identifier of the payload. The three checks on the subject fail
  on what the store returns, and none of them fails when the query throws.
\<close>

datatype check =
  MissingToken | Blacklisted | Verification | TokenType | SubjectExists | AccountActive
  | AccountNotLocked

definition pipeline_order :: "check list" where
  "pipeline_order =
     [MissingToken, Blacklisted, Verification, TokenType, SubjectExists, AccountActive,
      AccountNotLocked]"

definition subject_query :: "store \<Rightarrow> jwt \<Rightarrow> thrown + user option" where
  "subject_query db token =
     (case jwt_decode token of None \<Rightarrow> Inr None | Some d \<Rightarrow> findById db (p_id d))"

definition subject :: "store \<Rightarrow> jwt \<Rightarrow> user option" where
  "subject db token = (case subject_query db token of Inl err \<Rightarrow> None | Inr found \<Rightarrow> found)"

fun check_fails :: "env \<Rightarrow> store \<Rightarrow> int \<Rightarrow> mem \<Rightarrow> jwt \<Rightarrow> check \<Rightarrow> bool" where
  "check_fails e db now m token MissingToken = falsy_token token"
| "check_fails e db now m token Blacklisted = isTokenBlacklisted m token"
| "check_fails e db now m token Verification =
     isl (jwt_verify token (getCurrentJWTSecret e) (jwt_issuer e) (jwt_audience e) now)"
| "check_fails e db now m token TokenType =
     (case jwt_decode token of None \<Rightarrow> True | Some d \<Rightarrow> p_tokenType d \<noteq> ''access'')"
| "check_fails e db now m token SubjectExists = (subject_query db token = Inr None)"
| "check_fails e db now m token AccountActive =
     (case subject db token of
        None \<Rightarrow> False | Some u \<Rightarrow> status u \<noteq> [] \<and> status u \<noteq> ''active'')"
| "check_fails e db now m token AccountNotLocked =
     (case subject db token of None \<Rightarrow> False | Some u \<Rightarrow> isLocked u now)"


definition first_failure :: "env \<Rightarrow> store \<Rightarrow> int \<Rightarrow> mem \<Rightarrow> jwt \<Rightarrow> check option" where
  "first_failure e db now m token = find (check_fails e db now m token) pipeline_order"




section \<open>Validity of refresh tokens\<close>

definition minted :: "response \<Rightarrow> bool" where
  \<comment> \<open>the response carries a new token pair\<close>
  "minted r \<longleftrightarrow> http_status r = 200 \<and> data_accessToken r \<noteq> None \<and> data_refreshToken r \<noteq> None"

definition refresh_verify :: "env \<Rightarrow> int \<Rightarrow> jwt \<Rightarrow> thrown + payload" where
  "refresh_verify e now token =
     jwt_verify token (getRefreshSecret e) (jwt_issuer e) (jwt_audience e) now"

definition persisted_valid :: "store \<Rightarrow> int \<Rightarrow> payload \<Rightarrow> bool" where
  \<comment> \<open>the token's identifier is in the owning user's persisted list, in an entry that is
      not revoked and has not passed its expiry\<close>
  "persisted_valid db now d =
     (case findById db (p_id d) of
        Inr (Some u) \<Rightarrow>
          list_ex (\<lambda>rt. rt_jti rt = p_jti d \<and> \<not> rt_isRevoked rt \<and> rt_expiresAt rt > now)
            (u_refreshTokens u)
      | _ \<Rightarrow> False)"

definition refresh_token_valid_spec :: "env \<Rightarrow> store \<Rightarrow> int \<Rightarrow> jwt \<Rightarrow> bool" where
  \<comment> \<open>validity of a refresh token in the words of the specification\<close>
  "refresh_token_valid_spec e db now token =
     (case refresh_verify e now token of
        Inl err \<Rightarrow> False
      | Inr d \<Rightarrow> persisted_valid db now d)"

definition refresh_accepts :: "env \<Rightarrow> store \<Rightarrow> int \<Rightarrow> mem \<Rightarrow> jwt \<Rightarrow> bool" where
  \<comment> \<open>the conditions that the endpoint tests\<close>
  "refresh_accepts e db now m token =
     (\<not> falsy_token token \<and> \<not> isTokenBlacklisted m token \<and>
      (case refresh_verify e now token of
         Inl err \<Rightarrow> False
       | Inr d \<Rightarrow>
           p_tokenType d = ''refresh'' \<and> map_of (refreshTokens m) (p_jti d) \<noteq> None \<and>
           (case findById db (p_id d) of
              Inr (Some u) \<Rightarrow> status u = [] \<or> status u = ''active''
            | _ \<Rightarrow> False)))"

definition refresh_throws :: "env \<Rightarrow> store \<Rightarrow> int \<Rightarrow> mem \<Rightarrow> jwt \<Rightarrow> bool" where
  \<comment> \<open>the request ends in the last branch of the \<^verbatim>\<open>catch\<close> block: the verification fails
      on the not-before time, or the token passes the tests up to the registry and the
      store cannot cast the identifier of its subject\<close>
  "refresh_throws e db now m token =
     (\<not> falsy_token token \<and> \<not> isTokenBlacklisted m token \<and>
      (case refresh_verify e now token of
         Inl err \<Rightarrow> err = NotBeforeError
       | Inr d \<Rightarrow>
           p_tokenType d = ''refresh'' \<and> map_of (refreshTokens m) (p_jti d) \<noteq> None \<and>
           isl (findById db (p_id d))))"

definition refresh_view :: "user \<Rightarrow> string \<times> string \<times> string \<times> string \<times> string" where
  \<comment> \<open>what the refresh endpoint reads of a record\<close>
  "refresh_view u = (u_id u, fullName u, email u, role u, status u)"

text \<open>
  The operations by which the handlers change the registries of the process: putting a
  token on the blacklist, issuing a refresh token, deleting an identifier from the
  registry of refresh tokens, and noting the last use of a registered identifier.
\<close>

datatype mem_op =
    Blacklist jwt
  | Issue env int string identity
  | Forget string
  | Touch string int

fun apply_mem_op :: "mem_op \<Rightarrow> mem \<Rightarrow> mem" where
  "apply_mem_op (Blacklist token) m = blacklistToken token m"
| "apply_mem_op (Issue e now uuid payload) m = snd (generateRefreshToken e now uuid payload m)"
| "apply_mem_op (Forget jti) m = m\<lparr>refreshTokens := AList.delete jti (refreshTokens m)\<rparr>"
| "apply_mem_op (Touch jti now) m =
     (case map_of (refreshTokens m) jti of
        None \<Rightarrow> m
      | Some info \<Rightarrow>
          m\<lparr>refreshTokens := AList.update jti (info\<lparr>ti_lastUsed := now\<rparr>) (refreshTokens m)\<rparr>)"

definition issues :: "mem_op \<Rightarrow> string \<Rightarrow> bool" where
  "issues x jti = (case x of Issue e now uuid payload \<Rightarrow> uuid = jti | _ \<Rightarrow> False)"

definition unregistered :: "mem \<Rightarrow> string \<Rightarrow> bool" where
  "unregistered m jti = (map_of (refreshTokens m) jti = None)"

definition issues_only :: "string \<Rightarrow> mem_op list \<Rightarrow> bool" where
  \<comment> \<open>the operations issue no refresh token but under the identifier \<open>uuid\<close>\<close>
  "issues_only uuid ops = list_all (\<lambda>x. case x of Issue e now u payload \<Rightarrow> u = uuid | _ \<Rightarrow> True) ops"

section \<open>Sensitive fields\<close>

definition sensitive_fields :: "string list" where
  "sensitive_fields =
     [''password'', ''refreshTokens'', ''twoFactorSecret'', ''passwordHistory'',
      ''backupCodes'', ''resetPasswordToken'', ''emailVerificationToken'']"

definition object_keys :: "(string \<times> 'v) list \<Rightarrow> string set" where
  \<comment> \<open>the property names of a plain object\<close>
  "object_keys obj = fst ` set obj"

definition user_keys :: "response \<Rightarrow> string set" where
  \<comment> \<open>the property names of the user object of a response\<close>
  "user_keys r = (case data_user r of None \<Rightarrow> {} | Some obj \<Rightarrow> object_keys obj)"

section \<open>The blacklist is bounded\<close>

lemma length_set_add: "length (set_add x xs) \<le> Suc (length xs)"
  by (simp add: set_add_def)

lemma length_fold_set_add: "length (fold set_add ys acc) \<le> length acc + length ys"
proof (induction ys arbitrary: acc)
  case Nil
  show ?case by simp
next
  case (Cons y ys)
  have "length (fold set_add ys (set_add y acc)) \<le> length (set_add y acc) + length ys"
    by (rule Cons.IH)
  also have "\<dots> \<le> Suc (length acc) + length ys"
    using length_set_add [of y acc] by simp
  finally show ?case by simp
qed


lemma set_fold_set_add: "set (fold set_add ys acc) = set acc \<union> set ys"
  by (induction ys arbitrary: acc) (auto simp: set_add_def)

lemma distinct_set_add: "distinct xs \<Longrightarrow> distinct (set_add x xs)"
  by (simp add: set_add_def)

lemma distinct_fold_set_add: "distinct acc \<Longrightarrow> distinct (fold set_add ys acc)"
  by (induction ys arbitrary: acc) (simp_all add: distinct_set_add)

lemma length_slice_last: "length (slice_last n xs) = min n (length xs)"
  by (simp add: slice_last_def)


lemma tokenBlacklist_blacklistToken:
  "\<not> falsy_token token \<Longrightarrow>
   tokenBlacklist (blacklistToken token m) =
     (let added = set_add token (tokenBlacklist m)
      in if length added > 10000 then fold set_add (slice_last 5000 added) [] else added)"
  by (simp add: blacklistToken_def Let_def split: option.splits)

lemma isTokenBlacklisted_blacklistToken:
  assumes "\<not> falsy_token token" and "length (tokenBlacklist m) \<le> 10000"
  shows "isTokenBlacklisted (blacklistToken token m) token"
proof -
  let ?added = "set_add token (tokenBlacklist m)"
  have mem: "token \<in> set ?added"
    by (simp add: set_add_def)
  show ?thesis
  proof (cases "length ?added > 10000")
    case False
    with assms mem show ?thesis
      by (simp add: isTokenBlacklisted_def tokenBlacklist_blacklistToken)
  next
    case True
    with assms(2) have new: "?added = tokenBlacklist m @ [token]"
      by (auto simp: set_add_def split: if_splits)
    have "slice_last 5000 ?added
          = drop (length (tokenBlacklist m) + 1 - 5000) (tokenBlacklist m) @ [token]"
      using True unfolding new by (simp add: slice_last_def)
    then have "token \<in> set (slice_last 5000 ?added)" by simp
    with assms True show ?thesis
      by (simp add: isTokenBlacklisted_def tokenBlacklist_blacklistToken set_fold_set_add)
  qed
qed


text \<open>
  The hypothesis of the theorem holds in every state that the process reaches: from the
  empty registries, whatever operations the handlers perform, the blacklist is a set of
  at most 10,000 tokens.
\<close>

lemma blacklist_invariant_blacklistToken:
  assumes "distinct (tokenBlacklist m) \<and> length (tokenBlacklist m) \<le> 10000"
  shows "distinct (tokenBlacklist (blacklistToken token m)) \<and>
         length (tokenBlacklist (blacklistToken token m)) \<le> 10000"
proof (cases "falsy_token token")
  case True
  with assms show ?thesis by (simp add: blacklistToken_def)
next
  case False
  let ?added = "set_add token (tokenBlacklist m)"
  have d: "distinct ?added"
    using assms by (simp add: distinct_set_add)
  show ?thesis
  proof (cases "length ?added > 10000")
    case True
    have "length (fold set_add (slice_last 5000 ?added) []) \<le> 5000"
      using length_fold_set_add [of "slice_last 5000 ?added" "[]"]
      by (simp add: length_slice_last)
    with False True show ?thesis
      by (simp add: tokenBlacklist_blacklistToken distinct_fold_set_add)
  next
    case small: False
    with False d show ?thesis
      by (simp add: tokenBlacklist_blacklistToken)
  qed
qed

lemma blacklist_invariant_apply_mem_op:
  assumes "distinct (tokenBlacklist m) \<and> length (tokenBlacklist m) \<le> 10000"
  shows "distinct (tokenBlacklist (apply_mem_op x m)) \<and>
         length (tokenBlacklist (apply_mem_op x m)) \<le> 10000"
proof (cases x)
  case (Blacklist token)
  with assms show ?thesis by (simp add: blacklist_invariant_blacklistToken)
next
  case (Issue e now uuid payload)
  with assms show ?thesis by (simp add: generateRefreshToken_def Let_def)
next
  case (Forget j)
  with assms show ?thesis by simp
next
  case (Touch j now)
  with assms show ?thesis by (simp split: option.splits)
qed

lemma blacklist_bounded_reachable:
  "distinct (tokenBlacklist (fold apply_mem_op ops empty_mem)) \<and>
   length (tokenBlacklist (fold apply_mem_op ops empty_mem)) \<le> 10000"
proof -
  have "distinct (tokenBlacklist (fold apply_mem_op ops m)) \<and>
      length (tokenBlacklist (fold apply_mem_op ops m)) \<le> 10000"
    if "distinct (tokenBlacklist m) \<and> length (tokenBlacklist m) \<le> 10000" for m
    using that
    by (induction ops arbitrary: m) (simp_all add: blacklist_invariant_apply_mem_op)
  moreover have "distinct (tokenBlacklist empty_mem) \<and> length (tokenBlacklist empty_mem) \<le> 10000"
    by (simp add: empty_mem_def)
  ultimately show ?thesis by blast
qed

section \<open>Account lockout\<close>

lemma find_put:
  assumes "find P db = Some u" and "P u'" and "u_id u' = u_id u"
  shows "find P (put u' db) = Some u'"
  using assms
proof (induction db)
  case Nil
  then show ?case by simp
next
  case (Cons v db)
  show ?case
  proof (cases "P v")
    case True
    with Cons.prems show ?thesis by (simp add: put_def)
  next
    case False
    with Cons.prems have "find P db = Some u" by simp
    from Cons.IH [OF this Cons.prems(2,3)] False Cons.prems(2) show ?thesis
      by (simp add: put_def)
  qed
qed

lemma findByEmail_put:
  assumes "findByEmail db em = Some u" and "same_account u u'"
  shows "findByEmail (put u' db) em = Some u'"
proof -
  let ?q = "js_trim (toLowerCase (toLowerCase em))"
  from assms(1) have "email u = ?q \<and> status u \<noteq> ''deleted''"
    unfolding findByEmail_def by (auto dest: find_Some_iff [THEN iffD1])
  with assms(2) have "email u' = ?q \<and> status u' \<noteq> ''deleted''"
    by (simp add: same_account_def)
  with assms show ?thesis
    unfolding findByEmail_def by (intro find_put) (simp_all add: same_account_def)
qed

lemma recordLogin_recorded:
  "login_recorded req ok \<Longrightarrow>
     recordLogin (lr_clientIP req) (js_or (lr_userAgent req) ''Unknown'') ok now u =
       Inr (recordLogin_assign (lr_clientIP req) (js_or (lr_userAgent req) ''Unknown'') ok now u)"
  by (simp add: recordLogin_def login_recorded_def valid_login_record_def)

lemma recordLogin_rejected:
  "\<not> login_recorded req ok \<Longrightarrow>
     recordLogin (lr_clientIP req) (js_or (lr_userAgent req) ''Unknown'') ok now u =
       Inl ValidationError"
  by (auto simp add: recordLogin_def login_recorded_def valid_login_record_def
      split: if_splits)

lemma addRefreshToken_stored:
  "descriptor_stored req jti \<Longrightarrow>
     addRefreshToken h jti x
       (js_or (lr_userAgent req) ''Unknown'' @ '' - '' @ lr_clientIP req) now u =
       Inr (addRefreshToken_assign h jti x
              (js_or (lr_userAgent req) ''Unknown'' @ '' - '' @ lr_clientIP req) now u)"
  by (simp add: addRefreshToken_def descriptor_stored_def valid_refresh_descriptor_def)

lemma same_account_recordLogin: "same_account u (recordLogin_assign ip ua ok now u)"
  by (simp add: same_account_def recordLogin_assign_def Let_def)

lemma recordLogin_lockout [simp]:
  "loginAttempts (recordLogin_assign ip ua ok now u) = loginAttempts u"
  "lockUntil (recordLogin_assign ip ua ok now u) = lockUntil u"
  "maxLoginAttempts (recordLogin_assign ip ua ok now u) = maxLoginAttempts u"
  "lockTime (recordLogin_assign ip ua ok now u) = lockTime u"
  by (simp_all add: recordLogin_assign_def Let_def)

lemma same_account_apply_op: "same_account u (apply_op x u)"
  by (cases x) (simp_all add: same_account_def)

lemma same_account_trans: "same_account a b \<Longrightarrow> same_account b c \<Longrightarrow> same_account a c"
  by (simp add: same_account_def)

lemma same_account_refl: "same_account a a"
  by (simp add: same_account_def)

lemma same_account_updateOne: "same_account u (updateOne ops u)"
  unfolding updateOne_def
proof (induction ops arbitrary: u)
  case Nil
  show ?case by (simp add: same_account_refl)
next
  case (Cons x ops)
  have "same_account (apply_op x u) (fold apply_op ops (apply_op x u))" by (rule Cons.IH)
  with same_account_apply_op [of u x] show ?case
    by (auto intro: same_account_trans)
qed

lemma comparePassword_same: "same_account u u' \<Longrightarrow> comparePassword u' pw = comparePassword u pw"
  by (simp add: same_account_def comparePassword_def)

lemma loginUser_failed:
  assumes "findByEmail db (lr_email req) = Some u" and "status u = ''active''"
    and "\<not> isLocked u now" and "\<not> comparePassword u (lr_password req)"
    and "login_recorded req False"
  shows "snd (loginUser e now uuid1 uuid2 req (db, m)) = (put (failed_record req now u) db, m)"
    and "http_status (fst (loginUser e now uuid1 uuid2 req (db, m))) = 401"
  using assms(1-4) recordLogin_recorded [OF assms(5)]
  by (simp_all add: loginUser_def failed_record_def Let_def reply_def)

lemma loginUser_unrecorded:
  assumes "findByEmail db (lr_email req) = Some u" and "status u = ''active''"
    and "\<not> comparePassword u (lr_password req)" and "\<not> login_recorded req False"
  shows "loginUser e now uuid1 uuid2 req (db, m) =
           (reply 500 (Text ''Login failed. Please try again later.''), db, m)"
  using assms(1-3) recordLogin_rejected [OF assms(4)]
  by (simp add: loginUser_def Let_def loginUser_catch_def)

lemma same_account_failed_record: "same_account u (failed_record req now u)"
  unfolding failed_record_def Let_def
  by (rule same_account_trans [OF same_account_recordLogin same_account_updateOne])

lemma failed_record_lockout:
  "loginAttempts (failed_record req now u) =
     (if (\<exists>l. lockUntil u = Some l \<and> l < now) then 1 else loginAttempts u + 1)"
  "lockUntil (failed_record req now u) =
     (if (\<exists>l. lockUntil u = Some l \<and> l < now) then None
      else if loginAttempts u + 1 \<ge> maxLoginAttempts u \<and> \<not> isLocked u now
      then Some (now + lockTime u) else lockUntil u)"
  by (cases "lockUntil u";
      simp add: failed_record_def Let_def updateOne_def incLoginAttempts_def isLocked_def)+

lemma findByEmail_cong: "toLowerCase x = toLowerCase y \<Longrightarrow> findByEmail db x = findByEmail db y"
  by (simp add: findByEmail_def)

lemma run_logins_append:
  "run_logins e (xs @ ys) s = run_logins e ys (run_logins e xs s)"
  by (induction e xs s rule: run_logins.induct) simp_all

lemma loginUser_locked:
  assumes "findByEmail db (lr_email req) = Some u" and "status u = ''active''"
    and "isLocked u now" and "login_recorded req False"
  shows "http_status (fst (loginUser e now uuid1 uuid2 req (db, m))) = 423"
  using assms(1-3) recordLogin_recorded [OF assms(4)]
  by (simp add: loginUser_def Let_def reply_def)

lemma same_account_addRefreshToken: "same_account u (addRefreshToken_assign h j x d now u)"
  by (simp add: same_account_def addRefreshToken_assign_def Let_def)

lemma same_account_updateLastActive: "same_account u (updateLastActive now u)"
  by (simp add: same_account_def updateLastActive_def)

lemma addRefreshToken_lockout [simp]:
  "loginAttempts (addRefreshToken_assign h j x d now u) = loginAttempts u"
  "lockUntil (addRefreshToken_assign h j x d now u) = lockUntil u"
  by (simp_all add: addRefreshToken_assign_def Let_def)

lemma updateLastActive_lockout [simp]:
  "loginAttempts (updateLastActive now u) = loginAttempts u"
  "lockUntil (updateLastActive now u) = lockUntil u"
  by (simp_all add: updateLastActive_def)

lemma resetLoginAttempts_lockout [simp]:
  "loginAttempts (updateOne resetLoginAttempts u) = 0"
  "lockUntil (updateOne resetLoginAttempts u) = None"
  by (simp_all add: updateOne_def resetLoginAttempts_def)

lemma logged_in_record_same: "same_account u (logged_in_record h jti x req now u)"
proof -
  let ?ua = "js_or (lr_userAgent req) ''Unknown''"
  let ?u0 = "updateOne resetLoginAttempts u"
  let ?u1 = "recordLogin_assign (lr_clientIP req) ?ua True now ?u0"
  let ?u2 = "updateLastActive now ?u1"
  have a: "same_account u ?u0" by (rule same_account_updateOne)
  have b: "same_account ?u0 ?u1" by (rule same_account_recordLogin)
  have c: "same_account ?u1 ?u2" by (rule same_account_updateLastActive)
  have d: "same_account ?u2 (logged_in_record h jti x req now u)"
    unfolding logged_in_record_def Let_def by (rule same_account_addRefreshToken)
  show ?thesis
    by (rule same_account_trans [OF same_account_trans [OF same_account_trans [OF a b] c] d])
qed

lemma logged_in_record_lockout:
  "loginAttempts (logged_in_record h jti x req now u) = 0"
  "lockUntil (logged_in_record h jti x req now u) = None"
  unfolding logged_in_record_def Let_def by simp_all

lemma failures_below_maximum:
  assumes "findByEmail db em = Some u" and "status u = ''active''" and "lockUntil u = None"
    and "loginAttempts u + int (length fails) < maxLoginAttempts u"
    and "list_all (wrong_password em u) fails"
  shows "\<exists>db' u'. run_logins e fails (db, m) = (db', m) \<and> findByEmail db' em = Some u' \<and>
           same_account u u' \<and> lockUntil u' = None \<and>
           loginAttempts u' = loginAttempts u + int (length fails)"
  using assms
proof (induction fails arbitrary: db u)
  case Nil
  then show ?case by (auto simp: same_account_refl)
next
  case (Cons a fails)
  obtain now uuid1 uuid2 req where a: "a = (now, uuid1, uuid2, req)"
    by (cases a) auto
  from Cons.prems(5) have wa: "wrong_password em u a"
    and rest: "list_all (wrong_password em u) fails"
    by simp_all
  from wa a have em: "toLowerCase (lr_email req) = toLowerCase em"
    and wrong: "\<not> comparePassword u (lr_password req)"
    and recorded: "login_recorded req False"
    by (simp_all add: wrong_password_def)
  let ?u1 = "failed_record req now u"
  let ?db1 = "put ?u1 db"
  have found: "findByEmail db (lr_email req) = Some u"
    using Cons.prems(1) findByEmail_cong [OF em] by simp
  have unlocked: "\<not> isLocked u now"
    using Cons.prems(3) by (simp add: isLocked_def)
  have step: "snd (loginUser e now uuid1 uuid2 req (db, m)) = (?db1, m)"
    using loginUser_failed(1) [OF found Cons.prems(2) unlocked wrong recorded] .
  have sa: "same_account u ?u1" by (rule same_account_failed_record)
  have f1: "findByEmail ?db1 em = Some ?u1"
    using Cons.prems(1) sa by (rule findByEmail_put)
  have st1: "status ?u1 = ''active''"
    using sa Cons.prems(2) by (simp add: same_account_def)
  have cnt: "loginAttempts ?u1 = loginAttempts u + 1"
    using Cons.prems(3) by (simp add: failed_record_lockout)
  have mx: "maxLoginAttempts ?u1 = maxLoginAttempts u"
    using sa by (simp add: same_account_def)
  have lock1: "lockUntil ?u1 = None"
    using Cons.prems(3,4) by (simp add: failed_record_lockout)
  have below: "loginAttempts ?u1 + int (length fails) < maxLoginAttempts ?u1"
    using Cons.prems(4) cnt mx by simp
  have rest1: "list_all (wrong_password em ?u1) fails"
    using rest comparePassword_same [OF sa]
    by (simp add: wrong_password_def list_all_iff split_def)
  from Cons.IH [OF f1 st1 lock1 below rest1]
  obtain db' u' where r: "run_logins e fails (?db1, m) = (db', m)"
    and f': "findByEmail db' em = Some u'" and sa': "same_account ?u1 u'"
    and l': "lockUntil u' = None"
    and c': "loginAttempts u' = loginAttempts ?u1 + int (length fails)"
    by blast
  have "run_logins e (a # fails) (db, m) = (db', m)"
    using a step r by simp
  moreover have "same_account u u'"
    using sa sa' by (rule same_account_trans)
  moreover have "loginAttempts u' = loginAttempts u + int (length (a # fails))"
    using c' cnt by simp
  ultimately show ?case using f' l' by blast
qed

lemma failures_reach_maximum:
  assumes "findByEmail db em = Some u" and "status u = ''active''" and "lockUntil u = None"
    and "loginAttempts u = 0" and "fails \<noteq> []"
    and "int (length fails) = maxLoginAttempts u"
    and "list_all (wrong_password em u) fails"
  shows "\<exists>db' u'. run_logins e fails (db, m) = (db', m) \<and> findByEmail db' em = Some u' \<and>
           same_account u u' \<and> lockUntil u' = Some (fst (last fails) + lockTime u) \<and>
           loginAttempts u' = maxLoginAttempts u"
proof -
  from assms(5) obtain init a where fails: "fails = init @ [a]"
    by (metis rev_exhaust)
  obtain now uuid1 uuid2 req where a: "a = (now, uuid1, uuid2, req)"
    by (cases a) auto
  have below: "loginAttempts u + int (length init) < maxLoginAttempts u"
    using assms(4,6) fails by simp
  have winit: "list_all (wrong_password em u) init"
    using assms(7) fails by simp
  from failures_below_maximum [OF assms(1,2,3) below winit, of e m]
  obtain db1 u1 where r1: "run_logins e init (db, m) = (db1, m)"
    and f1: "findByEmail db1 em = Some u1" and sa1: "same_account u u1"
    and l1: "lockUntil u1 = None"
    and c1: "loginAttempts u1 = loginAttempts u + int (length init)"
    by blast
  from assms(7) fails have wa: "wrong_password em u a"
    by simp
  from wa a have em: "toLowerCase (lr_email req) = toLowerCase em"
    and wrong: "\<not> comparePassword u (lr_password req)"
    and recorded: "login_recorded req False"
    by (simp_all add: wrong_password_def)
  let ?u2 = "failed_record req now u1"
  have found: "findByEmail db1 (lr_email req) = Some u1"
    using f1 findByEmail_cong [OF em] by simp
  have st1: "status u1 = ''active''"
    using sa1 assms(2) by (simp add: same_account_def)
  have unlocked: "\<not> isLocked u1 now"
    using l1 by (simp add: isLocked_def)
  have wrong1: "\<not> comparePassword u1 (lr_password req)"
    using wrong comparePassword_same [OF sa1] by simp
  have step: "snd (loginUser e now uuid1 uuid2 req (db1, m)) = (put ?u2 db1, m)"
    using loginUser_failed(1) [OF found st1 unlocked wrong1 recorded] .
  have sa2: "same_account u1 ?u2" by (rule same_account_failed_record)
  have f2: "findByEmail (put ?u2 db1) em = Some ?u2"
    using f1 sa2 by (rule findByEmail_put)
  have same: "maxLoginAttempts u1 = maxLoginAttempts u" "lockTime u1 = lockTime u"
    using sa1 by (simp_all add: same_account_def)
  have reach: "loginAttempts u1 + 1 = maxLoginAttempts u1"
    using c1 assms(4,6) fails same by simp
  have c2: "loginAttempts ?u2 = maxLoginAttempts u"
    using l1 reach same by (simp add: failed_record_lockout)
  have l2: "lockUntil ?u2 = Some (now + lockTime u)"
    using l1 reach same unlocked by (simp add: failed_record_lockout)
  have "run_logins e fails (db, m) = (put ?u2 db1, m)"
    using fails a r1 step by (simp add: run_logins_append)
  moreover have "same_account u ?u2"
    using sa1 sa2 by (rule same_account_trans)
  moreover have "fst (last fails) = now"
    using fails a by simp
  ultimately show ?thesis using f2 c2 l2 by auto
qed

lemma identity_after_login [simp]:
  "u_id (updateLastActive now (recordLogin_assign ip ua ok now u)) = u_id u"
  "email (updateLastActive now (recordLogin_assign ip ua ok now u)) = email u"
  "role (updateLastActive now (recordLogin_assign ip ua ok now u)) = role u"
  by (simp_all add: updateLastActive_def recordLogin_assign_def Let_def)

lemma generateRefreshToken_decode:
  "jwt_decode (fst (generateRefreshToken e now uuid ident m)) =
     Some \<lparr>p_id = i_id ident, p_email = i_email ident, p_role = [],
           p_tokenType = ''refresh'', p_iat = now div 1000, p_jti = uuid,
           p_exp = Some (now div 1000 + refresh_expiresIn e), p_nbf = None,
           p_iss = jwt_issuer e, p_aud = jwt_audience e\<rparr>"
  by (simp add: generateRefreshToken_def jwt_sign_def jwt_decode_def Let_def)

lemma loginUser_success:
  assumes "findByEmail db (lr_email req) = Some u" and "status u = ''active''"
    and "\<not> isLocked u now" and "comparePassword u (lr_password req)"
    and "passwordHistory u = []" and "login_recorded req True"
    and "descriptor_stored req uuid2"
  shows "http_status (fst (loginUser e now uuid1 uuid2 req (db, m))) = 200"
    and "fst (snd (loginUser e now uuid1 uuid2 req (db, m))) =
           put (logged_in_record
                  (SHA256_hex (fst (generateRefreshToken e now uuid2
                     \<lparr>i_id = u_id u, i_email = email u, i_role = role u\<rparr> m)))
                  uuid2 ((now div 1000 + refresh_expiresIn e) * 1000) req now u) db"
  using assms(1-5) recordLogin_recorded [OF assms(6)] addRefreshToken_stored [OF assms(7)]
  by (simp_all add: loginUser_def Let_def generateRefreshToken_decode
      logged_in_record_def split_def isPasswordInHistory_def)
section \<open>Recording a failed login\<close>

text \<open>
  Claim C6. \<open>incLoginAttempts\<close> (the spec's \<open>recordFailure\<close>), as the update it sends
  to the store: if the record carries a lock-until timestamp that has already expired,
  the lock is cleared and the counter is set to 1; otherwise the counter is incremented
  by 1, and if the incremented counter reaches the record's maximum while the account is
  not locked, lock-until is set to now plus the record's lockout duration. A record
  created with no environment settings has the maximum 5 and the duration of 30 minutes.
\<close>

theorem incLoginAttempts_effect:
  "updateOne (incLoginAttempts u now) u =
     (if (\<exists>l. lockUntil u = Some l \<and> l < now)
      then u\<lparr>lockUntil := None, loginAttempts := 1\<rparr>
      else if loginAttempts u + 1 \<ge> maxLoginAttempts u \<and> \<not> isLocked u now
      then u\<lparr>loginAttempts := loginAttempts u + 1, lockUntil := Some (now + lockTime u)\<rparr>
      else u\<lparr>loginAttempts := loginAttempts u + 1\<rparr>) \<and>
   maxLoginAttempts (new_user empty_env t oid req) = 5 \<and>
   lockTime (new_user empty_env t oid req) = 30 * 60 * 1000"
  by (cases "lockUntil u")
     (simp_all add: updateOne_def incLoginAttempts_def Let_def new_user_def
        default_maxLoginAttempts_def default_lockTime_def empty_env_def)

section \<open>Lockout after repeated failures\<close>

lemma toLowerCase_alice: "toLowerCase ''Alice@Example.com'' = ''alice@example.com''"
  by code_simp

lemma toLowerCase_alice_lower: "toLowerCase ''alice@example.com'' = ''alice@example.com''"
  by code_simp

lemma js_trim_alice: "js_trim ''alice@example.com'' = ''alice@example.com''"
  by code_simp

lemma js_trim_Alice: "js_trim ''Alice'' = ''Alice''"
  by code_simp

lemma alice_fields:
  "status alice = ''active''" "lockUntil alice = None" "loginAttempts alice = 0"
  "maxLoginAttempts alice = 5" "lockTime alice = 1800000"
  "password alice = Some (Bcrypt ''Passw0rd!'')" "email alice = ''alice@example.com''"
  "passwordHistory alice = []"
  by (simp_all add: alice_def new_user_def alice_request_def empty_env_def
      default_maxLoginAttempts_def default_lockTime_def toLowerCase_alice_lower js_trim_alice)

lemma alice_created: "create_user empty_env 0 alice_id alice_request = Inr alice"
  by code_simp

lemma findByEmail_alice:
  "findByEmail [alice] ''alice@example.com'' = Some alice"
  "findByEmail [alice] ''Alice@Example.com'' = Some alice"
  by (simp_all add: findByEmail_def alice_fields toLowerCase_alice toLowerCase_alice_lower
      js_trim_alice)

lemma alice_login_recorded:
  "login_recorded (alice_login pw) True" "login_recorded (alice_login pw) False"
  "descriptor_stored (alice_login pw) ''r1''" "descriptor_stored (alice_login pw) ''r6''"
  by (simp_all add: login_recorded_def descriptor_stored_def alice_login_def js_or_def
      valid_lastLoginIP_def) code_simp

lemma login_recorded_failure: "login_recorded req True \<Longrightarrow> login_recorded req False"
  by (simp add: login_recorded_def)

text \<open>
  The lockout as the specification describes it, for clients whose login records the
  store accepts. Take an active account whose failure counter is zero, which has no lock
  and no password history (the state after registration), and let exactly
  \<open>maxLoginAttempts\<close> login attempts with a wrong password follow, at any times, each
  from a client with an address and a user agent of at most 500 characters. The next
  login attempt with the correct password, from a client whose address has the format of
  the \<^verbatim>\<open>lastLoginIP\<close> validator and whose descriptor fits, is answered 423 as long as the
  lock-until timestamp (the time of the last failure plus the lockout duration) has not
  passed; once it has passed, it is answered 200, and the stored record has the counter
  zero and no lock. After fewer failures there is no lock: the login is answered 200.
\<close>

lemma lockout_after_max_failures:
  assumes "findByEmail db em = Some u" and "status u = ''active''"
    and "lockUntil u = None" and "loginAttempts u = 0"
    and "fails \<noteq> []" and "int (length fails) = maxLoginAttempts u"
    and "list_all (wrong_password em u) fails"
    and "toLowerCase (lr_email req) = toLowerCase em"
    and "comparePassword u (lr_password req)"
    and "passwordHistory u = []" and "login_recorded req True"
    and "descriptor_stored req ur"
  shows "(now < fst (last fails) + lockTime u \<longrightarrow>
            http_status (fst (loginUser e now ua ur req (run_logins e fails (db, m)))) = 423) \<and>
         (fst (last fails) + lockTime u \<le> now \<longrightarrow>
            http_status (fst (loginUser e now ua ur req (run_logins e fails (db, m)))) = 200 \<and>
            (\<exists>u'. findByEmail (fst (snd (loginUser e now ua ur req
                         (run_logins e fails (db, m))))) em = Some u' \<and>
                  loginAttempts u' = 0 \<and> lockUntil u' = None)) \<and>
         (\<forall>k < length fails.
            http_status (fst (loginUser e now ua ur req
              (run_logins e (take k fails) (db, m)))) = 200)"
proof -
  from failures_reach_maximum [OF assms(1-7), of e m]
  obtain db' u' where run: "run_logins e fails (db, m) = (db', m)"
    and found: "findByEmail db' em = Some u'" and sa: "same_account u u'"
    and lock: "lockUntil u' = Some (fst (last fails) + lockTime u)"
    by blast
  have found': "findByEmail db' (lr_email req) = Some u'"
    using found findByEmail_cong [OF assms(8)] by simp
  have active: "status u' = ''active''"
    using sa assms(2) by (simp add: same_account_def)
  have pw: "comparePassword u' (lr_password req)"
    using assms(9) comparePassword_same [OF sa] by simp
  have hist: "passwordHistory u' = []"
    using sa assms(10) by (simp add: same_account_def)
  have recorded: "login_recorded req False"
    using assms(11) by (rule login_recorded_failure)
  have locked: "http_status (fst (loginUser e now ua ur req (db', m))) = 423"
    if "now < fst (last fails) + lockTime u"
  proof -
    from that lock have "isLocked u' now" by (simp add: isLocked_def)
    with found' active show ?thesis using recorded by (rule loginUser_locked)
  qed
  have after: "http_status (fst (loginUser e now ua ur req (db', m))) = 200 \<and>
      (\<exists>u''. findByEmail (fst (snd (loginUser e now ua ur req (db', m)))) em = Some u'' \<and>
             loginAttempts u'' = 0 \<and> lockUntil u'' = None)"
    if "fst (last fails) + lockTime u \<le> now"
  proof -
    from that lock have unlocked: "\<not> isLocked u' now" by (simp add: isLocked_def)
    let ?p = "logged_in_record
        (SHA256_hex (fst (generateRefreshToken e now ur
           \<lparr>i_id = u_id u', i_email = email u', i_role = role u'\<rparr> m)))
        ur ((now div 1000 + refresh_expiresIn e) * 1000) req now u'"
    have st: "http_status (fst (loginUser e now ua ur req (db', m))) = 200"
      using loginUser_success(1) [OF found' active unlocked pw hist assms(11,12)] .
    have db: "fst (snd (loginUser e now ua ur req (db', m))) = put ?p db'"
      using loginUser_success(2) [OF found' active unlocked pw hist assms(11,12)] .
    have "findByEmail (put ?p db') em = Some ?p"
      using found logged_in_record_same by (rule findByEmail_put)
    with st db show ?thesis
      by (auto simp: logged_in_record_lockout)
  qed
  have before: "http_status (fst (loginUser e now ua ur req
      (run_logins e (take k fails) (db, m)))) = 200" if "k < length fails" for k
  proof -
    have below: "loginAttempts u + int (length (take k fails)) < maxLoginAttempts u"
      using that assms(4,6) by simp
    have wrong: "list_all (wrong_password em u) (take k fails)"
      using assms(7) by (auto simp: list_all_iff dest: in_set_takeD)
    from failures_below_maximum [OF assms(1-3) below wrong, of e m]
    obtain db1 u1 where r1: "run_logins e (take k fails) (db, m) = (db1, m)"
      and f1: "findByEmail db1 em = Some u1" and sa1: "same_account u u1"
      and l1: "lockUntil u1 = None"
      by blast
    have "findByEmail db1 (lr_email req) = Some u1"
      using f1 findByEmail_cong [OF assms(8)] by simp
    moreover have "status u1 = ''active''"
      using sa1 assms(2) by (simp add: same_account_def)
    moreover have "\<not> isLocked u1 now"
      using l1 by (simp add: isLocked_def)
    moreover have "comparePassword u1 (lr_password req)"
      using assms(9) comparePassword_same [OF sa1] by simp
    moreover have "passwordHistory u1 = []"
      using sa1 assms(10) by (simp add: same_account_def)
    ultimately show ?thesis
      unfolding r1 using assms(11,12) by (rule loginUser_success(1))
  qed
  from locked after before show ?thesis
    unfolding run by blast
qed

lemma lockout_of_alice:
  "http_status (fst (loginUser empty_env 6000 ''a6'' ''r6'' (alice_login ''Passw0rd!'')
      (run_logins empty_env five_failures ([alice], empty_mem)))) = 423 \<and>
   http_status (fst (loginUser empty_env 1805000 ''a6'' ''r6'' (alice_login ''Passw0rd!'')
      (run_logins empty_env five_failures ([alice], empty_mem)))) = 200"
proof -
  have fails: "five_failures \<noteq> []" "int (length five_failures) = maxLoginAttempts alice"
    "fst (last five_failures) = 5000"
    by (simp_all add: five_failures_def alice_fields)
  have wrong: "list_all (wrong_password ''alice@example.com'' alice) five_failures"
    by (simp add: five_failures_def wrong_password_def comparePassword_def
        alice_fields bcrypt_compare_def alice_login_recorded)
       (simp add: alice_login_def toLowerCase_alice toLowerCase_alice_lower)
  have mail: "toLowerCase (lr_email (alice_login ''Passw0rd!'')) = toLowerCase ''alice@example.com''"
    by (simp add: alice_login_def toLowerCase_alice toLowerCase_alice_lower)
  have pw: "comparePassword alice (lr_password (alice_login ''Passw0rd!''))"
    by (simp add: alice_login_def comparePassword_def alice_fields bcrypt_compare_def)
  note t = lockout_after_max_failures [OF findByEmail_alice(1) alice_fields(1,2,3) fails(1,2)
      wrong mail pw alice_fields(8) alice_login_recorded(1,4),
      where e = empty_env and m = empty_mem and ua = "''a6''"]
  from t [where now = 6000] t [where now = 1805000] show ?thesis
    by (simp add: fails(3) alice_fields)
qed

text \<open>
  Claim C3 says that after \<open>maxLoginAttempts\<close> consecutive failed login attempts the next
  attempt is answered 423 even with the correct password, and that once the lock has
  passed a login with the correct password succeeds. The handler saves the record of the
  attempt before it counts the failure, and before it answers a successful login, and the
  store validates what is saved.

  \<^item> Five login attempts with wrong passwords whose \<^verbatim>\<open>User-Agent\<close> header has 501
    characters: \<open>recordLogin\<close> throws on the entry of the login history, the handler
    answers 500 and \<open>incLoginAttempts\<close> is not reached. The account is as it was, with
    the counter zero and no lock, and the sixth attempt, with the correct password, is
    answered 200 where the claim says 423.
  \<^item> Five counted failures lock the account. When the lock has passed, the login with
    the correct password from the client address \<^verbatim>\<open>::ffff:127.0.0.1\<close>, which the
    validator of \<^verbatim>\<open>lastLoginIP\<close> rejects, is answered 500 where the claim says that it
    succeeds; the same login from \<^verbatim>\<open>10.0.0.1\<close> is answered 200.
\<close>

theorem lockout_missed_and_login_refused:
  "int (length oversized_failures) = maxLoginAttempts alice \<and>
   list_all (\<lambda>(now, uuid1, uuid2, req).
       \<not> comparePassword alice (lr_password req) \<and>
       loginUser empty_env now uuid1 uuid2 req ([alice], empty_mem) =
         (reply 500 (Text ''Login failed. Please try again later.''), [alice], empty_mem))
     oversized_failures \<and>
   run_logins empty_env oversized_failures ([alice], empty_mem) = ([alice], empty_mem) \<and>
   loginAttempts alice = 0 \<and> lockUntil alice = None \<and>
   http_status (fst (loginUser empty_env 6000 ''a6'' ''r6'' (alice_login ''Passw0rd!'')
      (run_logins empty_env oversized_failures ([alice], empty_mem)))) = 200 \<and>
   http_status (fst (loginUser empty_env 6000 ''a6'' ''r6'' (alice_login ''Passw0rd!'')
      (run_logins empty_env five_failures ([alice], empty_mem)))) = 423 \<and>
   comparePassword alice (lr_password (mapped_login ''Passw0rd!'')) \<and>
   http_status (fst (loginUser empty_env 1805000 ''a6'' ''r6'' (mapped_login ''Passw0rd!'')
      (run_logins empty_env five_failures ([alice], empty_mem)))) = 500 \<and>
   http_status (fst (loginUser empty_env 1805000 ''a6'' ''r6'' (alice_login ''Passw0rd!'')
      (run_logins empty_env five_failures ([alice], empty_mem)))) = 200"
proof -
  have size: "int (length oversized_failures) = maxLoginAttempts alice"
    by (simp add: oversized_failures_def five_failures_def alice_fields)
  have each: "list_all (\<lambda>(now, uuid1, uuid2, req).
       \<not> comparePassword alice (lr_password req) \<and>
       loginUser empty_env now uuid1 uuid2 req ([alice], empty_mem) =
         (reply 500 (Text ''Login failed. Please try again later.''), [alice], empty_mem))
     oversized_failures"
    by code_simp
  have run: "run_logins empty_env oversized_failures ([alice], empty_mem) = ([alice], empty_mem)"
    by code_simp
  have sixth: "http_status (fst (loginUser empty_env 6000 ''a6'' ''r6'' (alice_login ''Passw0rd!'')
      ([alice], empty_mem))) = 200"
    by code_simp
  have pw: "comparePassword alice (lr_password (mapped_login ''Passw0rd!''))"
    by (simp add: mapped_login_def alice_login_def comparePassword_def alice_fields
        bcrypt_compare_def)
  have refused: "http_status (fst (loginUser empty_env 1805000 ''a6'' ''r6''
      (mapped_login ''Passw0rd!'') (run_logins empty_env five_failures ([alice], empty_mem)))) = 500"
    by code_simp
  from size each run sixth pw refused lockout_of_alice alice_fields(2,3) show ?thesis
    by simp
qed

section \<open>The session middleware\<close>

lemma blacklistToken_fresh:
  assumes "\<not> falsy_token token" and "\<not> isTokenBlacklisted m token"
  shows "isTokenBlacklisted (blacklistToken token m) token"
proof -
  let ?xs = "tokenBlacklist m"
  from assms(2) have added: "set_add token ?xs = ?xs @ [token]"
    by (simp add: set_add_def isTokenBlacklisted_def)
  have "slice_last 5000 (?xs @ [token]) = drop (Suc (length ?xs) - 5000) ?xs @ [token]"
    by (simp add: slice_last_def)
  then have "token \<in> set (slice_last 5000 (?xs @ [token]))"
    by simp
  with assms(1) added show ?thesis
    by (simp add: isTokenBlacklisted_def tokenBlacklist_blacklistToken set_fold_set_add Let_def)
qed

lemma jwt_verify_decode:
  "jwt_verify t secret iss aud now = Inr p \<Longrightarrow> jwt_decode t = Some p"
  by (cases t) (simp_all add: jwt_verify_def jwt_decode_def split: if_splits)

lemma jwt_verify_errors:
  "jwt_verify t secret iss aud now = Inl err \<Longrightarrow>
     err = JsonWebTokenError \<or> err = TokenExpiredError \<or> err = NotBeforeError"
  by (cases t) (auto simp: jwt_verify_def split: if_splits)

lemma authenticateToken_catch_status:
  "err = JsonWebTokenError \<or> err = TokenExpiredError \<or> err = NotBeforeError \<Longrightarrow>
     http_status (authenticateToken_catch err) = 401"
  by (auto simp: authenticateToken_catch_def reply_def)

lemma http_status_reply [simp]: "http_status (reply code msg) = code"
  by (simp add: reply_def)



lemma findById_thrown: "findById db uid = Inl err \<Longrightarrow> err = CastError"
  by (simp add: findById_def split: if_splits)





text \<open>
  The request that is answered outside the list: an access token that is signed with the
  key of the environment and names the subject \<^verbatim>\<open>nobody\<close>.
\<close>

lemma forged_subject_answered_500:
  "first_failure empty_env [alice] 0 empty_mem forged_token = None \<and>
   authenticateToken empty_env [alice] 0 (bearer forged_token) empty_mem =
     (Inl (reply 500 (Text ''Authentication failed'')), empty_mem)"
  by code_simp

lemma bearer_token_bearer [simp]: "bearer_token (bearer token) = token"
  by (simp add: bearer_token_def bearer_def)

lemma generateToken_verify:
  assumes "now div 1000 < issued div 1000 + access_expiresIn e"
  shows "jwt_verify (generateToken e issued uuid ident) (getCurrentJWTSecret e) (jwt_issuer e)
           (jwt_audience e) now =
         Inr \<lparr>p_id = i_id ident, p_email = i_email ident, p_role = js_or (i_role ident) ''user'',
              p_tokenType = ''access'', p_iat = issued div 1000, p_jti = uuid,
              p_exp = Some (issued div 1000 + access_expiresIn e), p_nbf = None,
              p_iss = jwt_issuer e, p_aud = jwt_audience e\<rparr>"
  using assms by (simp add: generateToken_def jwt_sign_def jwt_verify_def Let_def)

lemma generateToken_expired:
  assumes "issued div 1000 + access_expiresIn e \<le> now div 1000"
  shows "jwt_verify (generateToken e issued uuid ident) (getCurrentJWTSecret e) (jwt_issuer e)
           (jwt_audience e) now = Inl TokenExpiredError"
  using assms by (simp add: generateToken_def jwt_sign_def jwt_verify_def Let_def)

lemma generateToken_not_falsy [simp]: "\<not> falsy_token (generateToken e issued uuid ident)"
  by (simp add: generateToken_def jwt_sign_def falsy_token_def Let_def)

lemma expired_not_falsy:
  "jwt_verify t secret iss aud now = Inl TokenExpiredError \<Longrightarrow> \<not> falsy_token t"
  by (auto simp: falsy_token_def jwt_verify_def)

text \<open>
  Claim C7 says that of a token that is both past its expiry and on the blacklist the
  expiry is found first, and the request is rejected as expired. It is not: such a
  request is answered "Token has been revoked".
\<close>

theorem blacklisted_and_expired_counterexample:
  "jwt_verify old_access_token (getCurrentJWTSecret empty_env) (jwt_issuer empty_env)
      (jwt_audience empty_env) 4000000 = Inl TokenExpiredError \<and>
   isTokenBlacklisted (blacklistToken old_access_token empty_mem) old_access_token \<and>
   fst (authenticateToken empty_env [alice] 4000000 (bearer old_access_token)
          (blacklistToken old_access_token empty_mem))
     = Inl (reply 401 (Text ''Token has been revoked'')) \<and>
   fst (authenticateToken empty_env [alice] 4000000 (bearer old_access_token)
          (blacklistToken old_access_token empty_mem))
     \<noteq> Inl (authenticateToken_catch TokenExpiredError)"
proof -
  have expired: "jwt_verify old_access_token (getCurrentJWTSecret empty_env)
      (jwt_issuer empty_env) (jwt_audience empty_env) 4000000 = Inl TokenExpiredError"
    unfolding old_access_token_def
    by (rule generateToken_expired) (simp add: access_expiresIn_def empty_env_def)
  have listed: "isTokenBlacklisted (blacklistToken old_access_token empty_mem) old_access_token"
    by (rule blacklistToken_fresh)
       (simp_all add: old_access_token_def isTokenBlacklisted_def empty_mem_def)
  have present: "\<not> falsy_token old_access_token"
    by (simp add: old_access_token_def)
  have "fst (authenticateToken empty_env [alice] 4000000 (bearer old_access_token)
          (blacklistToken old_access_token empty_mem))
     = Inl (reply 401 (Text ''Token has been revoked''))"
    using listed present by (simp add: authenticateToken_def)
  with expired listed show ?thesis
    by (simp add: authenticateToken_catch_def reply_def)
qed

text \<open>
  Claim C7, amended. When the token presented to the session middleware is both past its
  expiry and on the blacklist, the blacklist check fires first: the request is rejected
  with status 401 as revoked, the expiry of the token is not examined, and the registries
  stay as they are.
\<close>

theorem blacklisted_before_expiry_check:
  assumes "isTokenBlacklisted m (bearer_token h)"
    and "jwt_verify (bearer_token h) (getCurrentJWTSecret e) (jwt_issuer e) (jwt_audience e) now
           = Inl TokenExpiredError"
  shows "authenticateToken e db now h m = (Inl (reply 401 (Text ''Token has been revoked'')), m)"
  using assms expired_not_falsy [OF assms(2)] by (simp add: authenticateToken_def)

theorem blacklisted_before_expiry_check_witness:
  "authenticateToken empty_env [alice] 4000000 (bearer old_access_token)
     (blacklistToken old_access_token empty_mem)
   = (Inl (reply 401 (Text ''Token has been revoked'')),
      blacklistToken old_access_token empty_mem)"
proof -
  have expired: "jwt_verify (bearer_token (bearer old_access_token))
      (getCurrentJWTSecret empty_env) (jwt_issuer empty_env) (jwt_audience empty_env) 4000000
        = Inl TokenExpiredError"
    unfolding old_access_token_def bearer_token_bearer
    by (rule generateToken_expired) (simp add: access_expiresIn_def empty_env_def)
  have listed: "isTokenBlacklisted (blacklistToken old_access_token empty_mem)
      (bearer_token (bearer old_access_token))"
    unfolding bearer_token_bearer
    by (rule blacklistToken_fresh)
       (simp_all add: old_access_token_def isTokenBlacklisted_def empty_mem_def)
  show ?thesis
    by (rule blacklisted_before_expiry_check [OF listed expired])
qed

text \<open>
  Claim C8. For every identity that carries an id, an email and a role, the access token
  that \<open>generateToken\<close> mints for it, presented as bearer token while it is unexpired and
  not blacklisted and while its subject exists, is active and is not locked, is admitted
  by the session middleware, and the request is annotated with the id, the email and the
  role of the identity (and the identifier drawn for the token).
\<close>

theorem token_round_trip:
  assumes "i_role ident \<noteq> []"
    and "token = generateToken e issued uuid ident"
    and "\<not> isTokenBlacklisted m token"
    and "now div 1000 < issued div 1000 + access_expiresIn e"
    and "findById db (i_id ident) = Inr (Some u)"
    and "status u = ''active''"
    and "\<not> isLocked u now"
  shows "\<exists>ru. authenticateToken e db now (bearer token) m = (Inr (ru, token), m) \<and>
              ru_id ru = i_id ident \<and> ru_email ru = i_email ident \<and>
              ru_role ru = i_role ident \<and> ru_tokenId ru = uuid"
  using assms generateToken_verify [OF assms(4), of uuid ident]
  by (cases "lockUntil u")
     (simp_all add: authenticateToken_def Let_def isLocked_def js_or_def)

lemma alice_id_valid: "isValidObjectId alice_id" "toLowerCase alice_id = alice_id" "alice_id \<noteq> []"
  by code_simp+

lemma find_record_alice: "find_record [alice] alice_id = Some alice"
  by (simp add: find_record_def alice_def new_user_def)

lemma findById_alice: "findById [alice] alice_id = Inr (Some alice)"
  by (simp add: findById_def alice_id_valid find_record_alice)

theorem token_round_trip_witness:
  "\<exists>ru. authenticateToken empty_env [alice] 0 (bearer old_access_token) empty_mem
           = (Inr (ru, old_access_token), empty_mem) \<and>
         ru_id ru = alice_id \<and> ru_email ru = ''alice@example.com'' \<and> ru_role ru = ''user'' \<and>
         ru_tokenId ru = ''j1''"
proof -
  have "\<not> isTokenBlacklisted empty_mem old_access_token"
    by (simp add: isTokenBlacklisted_def empty_mem_def)
  moreover have "(0::int) div 1000 < 0 div 1000 + access_expiresIn empty_env"
    by (simp add: access_expiresIn_def empty_env_def)
  moreover have "findById [alice] (i_id alice_identity) = Inr (Some alice)"
    by (simp add: alice_identity_def findById_alice)
  moreover have "\<not> isLocked alice 0"
    by (simp add: isLocked_def alice_fields)
  moreover have "i_role alice_identity \<noteq> []"
    by (simp add: alice_identity_def)
  ultimately show ?thesis
    using token_round_trip [of alice_identity old_access_token empty_env 0 "''j1''" empty_mem
        0 "[alice]" alice]
    by (simp add: old_access_token_def alice_fields alice_identity_def)
qed

text \<open>
  An identity without a role is minted with the role \<open>user\<close>, which is then the role of
  the annotation.
\<close>

lemma token_round_trip_default_role:
  assumes "i_role ident = []"
    and "token = generateToken e issued uuid ident"
    and "\<not> isTokenBlacklisted m token"
    and "now div 1000 < issued div 1000 + access_expiresIn e"
    and "findById db (i_id ident) = Inr (Some u)"
    and "status u = ''active''"
    and "\<not> isLocked u now"
  shows "\<exists>ru. authenticateToken e db now (bearer token) m = (Inr (ru, token), m) \<and>
              ru_id ru = i_id ident \<and> ru_email ru = i_email ident \<and> ru_role ru = ''user''"
  using assms generateToken_verify [OF assms(4), of uuid ident]
  by (cases "lockUntil u")
     (simp_all add: authenticateToken_def Let_def isLocked_def js_or_def)

section \<open>The refresh-token endpoint\<close>

lemma isTokenBlacklisted_refreshTokens_update [simp]:
  "isTokenBlacklisted (m\<lparr>refreshTokens := x\<rparr>) t = isTokenBlacklisted m t"
  by (simp add: isTokenBlacklisted_def)

lemma generateRefreshToken_blacklist [simp]:
  "isTokenBlacklisted (snd (generateRefreshToken e now uuid ident m)) t = isTokenBlacklisted m t"
  by (simp add: generateRefreshToken_def Let_def)

lemma refreshAccessToken_accepted:
  assumes "refresh_accepts e db now m token"
  shows "\<exists>d u. refresh_verify e now token = Inr d \<and> findById db (p_id d) = Inr (Some u) \<and>
           fst (refreshAccessToken e db now uuid1 uuid2 token m) =
             \<lparr>http_status = 200, success = True, message = Text ''Token refreshed successfully'',
              data_user = Some [(''id'', Str (u_id u)), (''fullName'', Str (fullName u)),
                (''email'', Str (email u)), (''role'', Str (role u))],
              data_accessToken = Some (generateToken e now uuid1
                \<lparr>i_id = u_id u, i_email = email u, i_role = role u\<rparr>),
              data_refreshToken = Some (fst (generateRefreshToken e now uuid2
                \<lparr>i_id = u_id u, i_email = email u, i_role = []\<rparr> m))\<rparr>"
    and "isTokenBlacklisted (snd (refreshAccessToken e db now uuid1 uuid2 token m)) token"
proof -
  from assms have present: "\<not> falsy_token token" and clean: "\<not> isTokenBlacklisted m token"
    by (simp_all add: refresh_accepts_def)
  from assms obtain d where v: "refresh_verify e now token = Inr d"
    by (cases "refresh_verify e now token") (simp_all add: refresh_accepts_def)
  with assms have ty: "p_tokenType d = ''refresh''"
    and reg: "map_of (refreshTokens m) (p_jti d) \<noteq> None"
    by (simp_all add: refresh_accepts_def)
  from assms v obtain u where u: "findById db (p_id d) = Inr (Some u)"
    and st: "status u = [] \<or> status u = ''active''"
    by (auto simp add: refresh_accepts_def split: sum.splits option.splits)
  from reg obtain ti where ti: "map_of (refreshTokens m) (p_jti d) = Some ti"
    by auto
  let ?g = "generateRefreshToken e now uuid2 \<lparr>i_id = u_id u, i_email = email u, i_role = []\<rparr> m"
  have listed: "isTokenBlacklisted (blacklistToken token (snd ?g)) token"
    using present clean by (intro blacklistToken_fresh) simp_all
  have v': "jwt_verify token (getRefreshSecret e) (jwt_issuer e) (jwt_audience e) now = Inr d"
    using v by (simp add: refresh_verify_def)
  show "\<exists>d u. refresh_verify e now token = Inr d \<and> findById db (p_id d) = Inr (Some u) \<and>
           fst (refreshAccessToken e db now uuid1 uuid2 token m) =
             \<lparr>http_status = 200, success = True, message = Text ''Token refreshed successfully'',
              data_user = Some [(''id'', Str (u_id u)), (''fullName'', Str (fullName u)),
                (''email'', Str (email u)), (''role'', Str (role u))],
              data_accessToken = Some (generateToken e now uuid1
                \<lparr>i_id = u_id u, i_email = email u, i_role = role u\<rparr>),
              data_refreshToken = Some (fst (generateRefreshToken e now uuid2
                \<lparr>i_id = u_id u, i_email = email u, i_role = []\<rparr> m))\<rparr>"
    using present clean v v' ty ti u st
    by (auto simp add: refreshAccessToken_def Let_def split_def)
  show "isTokenBlacklisted (snd (refreshAccessToken e db now uuid1 uuid2 token m)) token"
    using present clean v' ty ti u st listed
    by (auto simp add: refreshAccessToken_def Let_def split_def split: option.splits)
qed

lemma refreshAccessToken_catch_no_tokens [simp]:
  "data_accessToken (refreshAccessToken_catch err) = None"
  "data_refreshToken (refreshAccessToken_catch err) = None"
  by (simp_all add: refreshAccessToken_catch_def reply_def)

lemma reply_no_tokens [simp]:
  "data_accessToken (reply c msg) = None" "data_refreshToken (reply c msg) = None"
  by (simp_all add: reply_def)

lemma refreshAccessToken_refused:
  assumes "\<not> refresh_accepts e db now m token"
  shows "http_status (fst (refreshAccessToken e db now uuid1 uuid2 token m)) =
           (if refresh_throws e db now m token then 500 else 401)"
    and "data_accessToken (fst (refreshAccessToken e db now uuid1 uuid2 token m)) = None"
    and "data_refreshToken (fst (refreshAccessToken e db now uuid1 uuid2 token m)) = None"
proof -
  have errs: "err = JsonWebTokenError \<or> err = TokenExpiredError \<or> err = NotBeforeError"
    if "refresh_verify e now token = Inl err" for err
    using that unfolding refresh_verify_def by (rule jwt_verify_errors)
  have cast: "err = CastError" if "findById db uid = Inl err" for err uid
    using that by (rule findById_thrown)
  show "http_status (fst (refreshAccessToken e db now uuid1 uuid2 token m)) =
           (if refresh_throws e db now m token then 500 else 401)"
  proof (cases "refresh_verify e now token")
    case (Inl err)
    with errs [OF Inl] show ?thesis
      by (auto simp add: refreshAccessToken_def refresh_throws_def refresh_verify_def
          refreshAccessToken_catch_def)
  next
    case (Inr d)
    show ?thesis
    proof (cases "findById db (p_id d)")
      case (Inl err)
      with cast [OF Inl] Inr show ?thesis
        by (auto simp add: refreshAccessToken_def refresh_throws_def refresh_verify_def
            refreshAccessToken_catch_def Let_def split: option.splits)
    next
      case found: (Inr found)
      with assms Inr show ?thesis
        by (cases found)
           (auto simp add: refreshAccessToken_def refresh_accepts_def refresh_throws_def
              refresh_verify_def Let_def split: option.splits)
    qed
  qed
  show "data_accessToken (fst (refreshAccessToken e db now uuid1 uuid2 token m)) = None"
    using assms
    by (cases "refresh_verify e now token")
       (auto simp add: refreshAccessToken_def refresh_accepts_def refresh_verify_def
          Let_def split: option.splits sum.splits)
  show "data_refreshToken (fst (refreshAccessToken e db now uuid1 uuid2 token m)) = None"
    using assms
    by (cases "refresh_verify e now token")
       (auto simp add: refreshAccessToken_def refresh_accepts_def refresh_verify_def
          Let_def split: option.splits sum.splits)
qed

lemma loginUser_success_tokens:
  assumes "findByEmail db (lr_email req) = Some u" and "status u = ''active''"
    and "\<not> isLocked u now" and "comparePassword u (lr_password req)"
    and "passwordHistory u = []" and "login_recorded req True"
    and "descriptor_stored req uuid2"
  shows "snd (snd (loginUser e now uuid1 uuid2 req (db, m))) =
           snd (generateRefreshToken e now uuid2
                  \<lparr>i_id = u_id u, i_email = email u, i_role = role u\<rparr> m)"
    and "data_refreshToken (fst (loginUser e now uuid1 uuid2 req (db, m))) =
           Some (fst (generateRefreshToken e now uuid2
                  \<lparr>i_id = u_id u, i_email = email u, i_role = role u\<rparr> m))"
    and "data_accessToken (fst (loginUser e now uuid1 uuid2 req (db, m))) =
           Some (generateToken e now uuid1 \<lparr>i_id = u_id u, i_email = email u, i_role = role u\<rparr>)"
  using assms(1-5) recordLogin_recorded [OF assms(6)] addRefreshToken_stored [OF assms(7)]
  by (simp_all add: loginUser_def Let_def generateRefreshToken_decode split_def
      isPasswordInHistory_def)

lemma alice_identity_fields:
  "u_id alice = alice_id" "role alice = ''user''" "fullName alice = ''Alice''"
  "u_refreshTokens alice = []"
  by (simp_all add: alice_def new_user_def alice_request_def js_trim_Alice)

lemma alice_identity_eq:
  "\<lparr>i_id = u_id alice, i_email = email alice, i_role = role alice\<rparr> = alice_identity"
  by (simp add: alice_identity_def alice_identity_fields alice_fields)

lemma login_alice:
  "snd (loginUser empty_env 0 ''a1'' ''r1'' (alice_login ''Passw0rd!'') ([alice], empty_mem)) =
     ([alice_after_login], mem_after_login)"
  "data_refreshToken (fst (loginUser empty_env 0 ''a1'' ''r1'' (alice_login ''Passw0rd!'')
      ([alice], empty_mem))) = Some alice_refresh_token"
  "http_status (fst (loginUser empty_env 0 ''a1'' ''r1'' (alice_login ''Passw0rd!'')
      ([alice], empty_mem))) = 200"
proof -
  let ?req = "alice_login ''Passw0rd!''"
  have found: "findByEmail [alice] (lr_email ?req) = Some alice"
    by (simp add: findByEmail_alice alice_login_def)
  have unlocked: "\<not> isLocked alice 0"
    by (simp add: isLocked_def alice_fields)
  have pw: "comparePassword alice (lr_password ?req)"
    by (simp add: alice_login_def comparePassword_def alice_fields bcrypt_compare_def)
  note db = loginUser_success(2) [OF found alice_fields(1) unlocked pw alice_fields(8)
      alice_login_recorded(1,3),
      where e = empty_env and m = empty_mem and ?uuid1.0 = "''a1''"]
  note tk = loginUser_success_tokens [OF found alice_fields(1) unlocked pw alice_fields(8)
      alice_login_recorded(1,3),
      where e = empty_env and m = empty_mem and ?uuid1.0 = "''a1''"]
  have exp: "refresh_expiresIn empty_env = 604800"
    by (simp add: refresh_expiresIn_def empty_env_def)
  have same: "u_id alice_after_login = u_id alice"
    using logged_in_record_same [of alice] by (simp add: same_account_def alice_after_login_def)
  have "fst (snd (loginUser empty_env 0 ''a1'' ''r1'' ?req ([alice], empty_mem)))
      = [alice_after_login]"
    using same unfolding db alice_identity_eq exp
    by (simp add: put_def alice_after_login_def alice_refresh_token_def)
  moreover have "snd (snd (loginUser empty_env 0 ''a1'' ''r1'' ?req ([alice], empty_mem)))
      = mem_after_login"
    unfolding tk alice_identity_eq by (simp add: mem_after_login_def)
  ultimately show "snd (loginUser empty_env 0 ''a1'' ''r1'' ?req ([alice], empty_mem)) =
     ([alice_after_login], mem_after_login)"
    by (simp add: prod_eq_iff)
  show "data_refreshToken (fst (loginUser empty_env 0 ''a1'' ''r1'' ?req
      ([alice], empty_mem))) = Some alice_refresh_token"
    unfolding tk alice_identity_eq by (simp add: alice_refresh_token_def)
  show "http_status (fst (loginUser empty_env 0 ''a1'' ''r1'' ?req ([alice], empty_mem))) = 200"
    using found alice_fields(1) unlocked pw alice_fields(8) alice_login_recorded(1,3)
    by (rule loginUser_success(1))
qed

lemma generateRefreshToken_verify:
  assumes "now div 1000 < issued div 1000 + refresh_expiresIn e"
  shows "refresh_verify e now (fst (generateRefreshToken e issued uuid ident m)) =
         Inr \<lparr>p_id = i_id ident, p_email = i_email ident, p_role = [],
              p_tokenType = ''refresh'', p_iat = issued div 1000, p_jti = uuid,
              p_exp = Some (issued div 1000 + refresh_expiresIn e), p_nbf = None,
              p_iss = jwt_issuer e, p_aud = jwt_audience e\<rparr>"
  using assms
  by (simp add: refresh_verify_def generateRefreshToken_def jwt_sign_def jwt_verify_def Let_def)

lemma generateRefreshToken_not_falsy [simp]:
  "\<not> falsy_token (fst (generateRefreshToken e issued uuid ident m))"
  by (simp add: generateRefreshToken_def jwt_sign_def falsy_token_def Let_def)

lemma alice_refresh_token_verify:
  "refresh_verify empty_env 1000 alice_refresh_token =
     Inr \<lparr>p_id = alice_id, p_email = ''alice@example.com'', p_role = [],
          p_tokenType = ''refresh'', p_iat = 0, p_jti = ''r1'', p_exp = Some 604800,
          p_nbf = None, p_iss = jwt_issuer empty_env, p_aud = jwt_audience empty_env\<rparr>"
proof -
  have "(1000::int) div 1000 < 0 div 1000 + refresh_expiresIn empty_env"
    by (simp add: refresh_expiresIn_def empty_env_def)
  from generateRefreshToken_verify [OF this, of "''r1''" alice_identity empty_mem]
  show ?thesis
    by (simp add: alice_refresh_token_def alice_identity_def refresh_expiresIn_def
        empty_env_def)
qed

lemma alice_after_login_fields:
  "u_id alice_after_login = alice_id" "status alice_after_login = ''active''"
  "u_refreshTokens alice_after_login =
     [\<lparr>rt_tokenHash = SHA256_hex alice_refresh_token, rt_jti = ''r1'',
       rt_expiresAt = 604800000, rt_deviceInfo = ''curl - 10.0.0.1'', rt_lastUsed = 0,
       rt_isRevoked = False\<rparr>]"
proof -
  have "same_account alice alice_after_login"
    unfolding alice_after_login_def by (rule logged_in_record_same)
  then show "u_id alice_after_login = alice_id" "status alice_after_login = ''active''"
    by (simp_all add: same_account_def alice_identity_fields alice_fields)
  show "u_refreshTokens alice_after_login =
     [\<lparr>rt_tokenHash = SHA256_hex alice_refresh_token, rt_jti = ''r1'',
       rt_expiresAt = 604800000, rt_deviceInfo = ''curl - 10.0.0.1'', rt_lastUsed = 0,
       rt_isRevoked = False\<rparr>]"
    by (simp add: alice_after_login_def logged_in_record_def addRefreshToken_assign_def Let_def
        updateLastActive_def recordLogin_assign_def updateOne_def resetLoginAttempts_def
        alice_identity_fields alice_login_def js_or_def)
qed

lemma find_record_alice_after_login: "find_record [alice_after_login] alice_id = Some alice_after_login"
  by (simp add: find_record_def alice_after_login_fields)

lemma findById_alice_after_login:
  "findById [alice_after_login] alice_id = Inr (Some alice_after_login)"
  by (simp add: findById_def alice_id_valid find_record_alice_after_login)

lemma alice_refresh_token_spec_valid:
  "refresh_token_valid_spec empty_env [alice_after_login] 1000 alice_refresh_token"
  by (simp add: refresh_token_valid_spec_def alice_refresh_token_verify persisted_valid_def
      findById_alice_after_login alice_after_login_fields)

lemma alice_refresh_token_accepted:
  "refresh_accepts empty_env [alice_after_login] 1000 mem_after_login alice_refresh_token"
proof -
  have "\<not> falsy_token alice_refresh_token"
    by (simp add: alice_refresh_token_def)
  moreover have "\<not> isTokenBlacklisted mem_after_login alice_refresh_token"
    unfolding mem_after_login_def generateRefreshToken_blacklist
    by (simp add: isTokenBlacklisted_def empty_mem_def)
  moreover have "map_of (refreshTokens mem_after_login) ''r1'' \<noteq> None"
    by (simp add: mem_after_login_def generateRefreshToken_def Let_def empty_mem_def)
  ultimately show ?thesis
    by (simp add: refresh_accepts_def alice_refresh_token_verify
        findById_alice_after_login alice_after_login_fields)
qed

lemma unregistered_blacklistToken:
  "unregistered m jti \<Longrightarrow> unregistered (blacklistToken token m) jti"
  by (auto simp add: unregistered_def blacklistToken_def Let_def delete_conv
      split: option.splits)

lemma unregistered_apply_mem_op:
  assumes "unregistered m jti" and "\<not> issues x jti"
  shows "unregistered (apply_mem_op x m) jti"
proof (cases x)
  case (Blacklist token)
  with assms show ?thesis by (simp add: unregistered_blacklistToken)
next
  case (Issue e now uuid payload)
  with assms show ?thesis
    by (simp add: unregistered_def issues_def generateRefreshToken_def Let_def update_conv)
next
  case (Forget j)
  with assms show ?thesis by (simp add: unregistered_def delete_conv)
next
  case (Touch j now)
  with assms show ?thesis
    by (auto simp add: unregistered_def update_conv split: option.splits)
qed

lemma unregistered_fold:
  assumes "unregistered m jti" and "list_all (\<lambda>x. \<not> issues x jti) ops"
  shows "unregistered (fold apply_mem_op ops m) jti"
  using assms
  by (induction ops arbitrary: m) (simp_all add: unregistered_apply_mem_op)

lemma unregistered_refused:
  assumes "refresh_verify e now token = Inr d" and "now \<le> now'"
    and "unregistered m' (p_jti d)"
  shows "http_status (fst (refreshAccessToken e db' now' uuid3 uuid4 token m')) = 401"
proof -
  from assms(1) obtain k where tok: "token = Signed k d"
    by (cases token) (auto simp: refresh_verify_def jwt_verify_def split: if_splits)
  have mono: "now div 1000 \<le> now' div 1000"
    using assms(2) by (rule zdiv_mono1) simp
  have later: "refresh_verify e now' token = Inr d \<or> refresh_verify e now' token = Inl TokenExpiredError"
    using assms(1) mono unfolding tok refresh_verify_def jwt_verify_def
    by (auto split: if_splits option.splits)
  have "\<not> refresh_accepts e db' now' m' token"
    using later assms(3) by (auto simp: refresh_accepts_def unregistered_def)
  moreover have "\<not> refresh_throws e db' now' m' token"
    using later assms(3) by (auto simp: refresh_throws_def unregistered_def)
  ultimately show ?thesis
    using refreshAccessToken_refused(1) [of e db' now' m' token uuid3 uuid4] by simp
qed

lemma refreshAccessToken_unregisters:
  assumes "refresh_accepts e db now m token" and "refresh_verify e now token = Inr d"
  shows "unregistered (snd (refreshAccessToken e db now uuid1 uuid2 token m)) (p_jti d)"
proof -
  from assms have present: "\<not> falsy_token token" and clean: "\<not> isTokenBlacklisted m token"
    and ty: "p_tokenType d = ''refresh''"
    and reg: "map_of (refreshTokens m) (p_jti d) \<noteq> None"
    by (simp_all add: refresh_accepts_def)
  from assms obtain u where u: "findById db (p_id d) = Inr (Some u)"
    and st: "status u = [] \<or> status u = ''active''"
    by (auto simp add: refresh_accepts_def split: sum.splits option.splits)
  from reg obtain ti where ti: "map_of (refreshTokens m) (p_jti d) = Some ti"
    by auto
  have v': "jwt_verify token (getRefreshSecret e) (jwt_issuer e) (jwt_audience e) now = Inr d"
    using assms(2) by (simp add: refresh_verify_def)
  let ?m1 = "snd (generateRefreshToken e now uuid2 \<lparr>i_id = u_id u, i_email = email u, i_role = []\<rparr> m)"
  let ?m3 = "(blacklistToken token ?m1)\<lparr>refreshTokens :=
      AList.delete (p_jti d) (refreshTokens (blacklistToken token ?m1))\<rparr>"
  have m3: "unregistered ?m3 (p_jti d)"
    by (simp add: unregistered_def delete_conv)
  have "snd (refreshAccessToken e db now uuid1 uuid2 token m) =
      apply_mem_op (Touch uuid2 now) ?m3"
    using present clean v' ty ti u st
    by (auto simp add: refreshAccessToken_def Let_def split_def generateRefreshToken_decode
        split: option.splits)
  moreover have "unregistered (apply_mem_op (Touch uuid2 now) ?m3) (p_jti d)"
    using m3 by (rule unregistered_apply_mem_op) (simp add: issues_def)
  ultimately show ?thesis by simp
qed

lemma issues_only_fresh:
  "issues_only uuid ops \<Longrightarrow> uuid \<noteq> jti \<Longrightarrow> list_all (\<lambda>x. \<not> issues x jti) ops"
  by (induction ops) (auto simp: issues_only_def issues_def split: mem_op.splits)

lemma authenticateToken_mem_ops:
  "\<exists>ops. snd (authenticateToken e db now h m) = fold apply_mem_op ops m \<and> issues_only uuid ops"
proof (cases "snd (authenticateToken e db now h m) = m")
  case True
  then have "snd (authenticateToken e db now h m) = fold apply_mem_op [] m \<and> issues_only uuid []"
    by (simp add: issues_only_def)
  then show ?thesis ..
next
  case False
  then have "snd (authenticateToken e db now h m) = blacklistToken (bearer_token h) m"
    by (auto simp add: authenticateToken_def Let_def split: sum.splits option.splits if_splits)
  then have "snd (authenticateToken e db now h m) =
      fold apply_mem_op [Blacklist (bearer_token h)] m \<and>
      issues_only uuid [Blacklist (bearer_token h)]"
    by (simp add: issues_only_def)
  then show ?thesis ..
qed

lemma loginUser_mem_ops:
  "\<exists>ops. snd (snd (loginUser e now uuid1 uuid2 req (db, m))) = fold apply_mem_op ops m \<and>
         issues_only uuid2 ops"
proof (cases "snd (snd (loginUser e now uuid1 uuid2 req (db, m))) = m")
  case True
  then have "snd (snd (loginUser e now uuid1 uuid2 req (db, m))) = fold apply_mem_op [] m \<and>
      issues_only uuid2 []"
    by (simp add: issues_only_def)
  then show ?thesis ..
next
  case False
  then obtain ident where "snd (snd (loginUser e now uuid1 uuid2 req (db, m))) =
      snd (generateRefreshToken e now uuid2 ident m)"
    by (auto simp add: loginUser_def Let_def split_def split: option.splits sum.splits if_splits)
  then have "snd (snd (loginUser e now uuid1 uuid2 req (db, m))) =
      fold apply_mem_op [Issue e now uuid2 ident] m \<and> issues_only uuid2 [Issue e now uuid2 ident]"
    by (simp add: issues_only_def)
  then show ?thesis ..
qed

lemma registerUser_mem_ops:
  "\<exists>ops. snd (snd (registerUser e now oid uuid1 uuid2 req (db, m))) = fold apply_mem_op ops m \<and>
         issues_only uuid2 ops"
proof (cases "snd (snd (registerUser e now oid uuid1 uuid2 req (db, m))) = m")
  case True
  then have "snd (snd (registerUser e now oid uuid1 uuid2 req (db, m))) = fold apply_mem_op [] m \<and>
      issues_only uuid2 []"
    by (simp add: issues_only_def)
  then show ?thesis ..
next
  case False
  then obtain ident where "snd (snd (registerUser e now oid uuid1 uuid2 req (db, m))) =
      snd (generateRefreshToken e now uuid2 ident m)"
    by (auto simp add: registerUser_def Let_def split_def split: option.splits sum.splits if_splits)
  then have "snd (snd (registerUser e now oid uuid1 uuid2 req (db, m))) =
      fold apply_mem_op [Issue e now uuid2 ident] m \<and> issues_only uuid2 [Issue e now uuid2 ident]"
    by (simp add: issues_only_def)
  then show ?thesis ..
qed

text \<open>
  Claim C4. A refresh token that the endpoint has accepted once, minting a new pair, is
  revoked by that very request: presented again to the endpoint in the state that the
  first request left, at any time and whatever the store then holds, it is answered 401
  and mints nothing.
\<close>

theorem refresh_token_single_use:
  assumes "http_status (fst (refreshAccessToken e db now uuid1 uuid2 token m)) = 200"
  shows "http_status (fst (refreshAccessToken e' db' now' uuid3 uuid4 token
            (snd (refreshAccessToken e db now uuid1 uuid2 token m)))) = 401 \<and>
         \<not> minted (fst (refreshAccessToken e' db' now' uuid3 uuid4 token
            (snd (refreshAccessToken e db now uuid1 uuid2 token m))))"
proof -
  have acc: "refresh_accepts e db now m token"
  proof (rule ccontr)
    assume "\<not> refresh_accepts e db now m token"
    from refreshAccessToken_refused(1) [OF this, of uuid1 uuid2] assms show False
      by (simp split: if_splits)
  qed
  then have present: "\<not> falsy_token token"
    by (simp add: refresh_accepts_def)
  have "isTokenBlacklisted (snd (refreshAccessToken e db now uuid1 uuid2 token m)) token"
    using acc by (rule refreshAccessToken_accepted(2))
  with present show ?thesis
    by (simp add: refreshAccessToken_def minted_def)
qed

theorem refresh_token_single_use_witness:
  "http_status (fst (refreshAccessToken empty_env [alice_after_login] 1000 ''a2'' ''r2''
      alice_refresh_token mem_after_login)) = 200 \<and>
   http_status (fst (refreshAccessToken empty_env [alice_after_login] 2000 ''a3'' ''r3''
      alice_refresh_token
      (snd (refreshAccessToken empty_env [alice_after_login] 1000 ''a2'' ''r2''
         alice_refresh_token mem_after_login)))) = 401"
proof -
  from refreshAccessToken_accepted(1) [OF alice_refresh_token_accepted, of "''a2''" "''r2''"]
  have first: "http_status (fst (refreshAccessToken empty_env [alice_after_login] 1000
      ''a2'' ''r2'' alice_refresh_token mem_after_login)) = 200"
    by auto
  from refresh_token_single_use [OF first] first show ?thesis
    by simp
qed

text \<open>
  The rotation also deletes the identifier of the token from the registry of the process,
  and no operation of a handler registers it again unless the same identifier is drawn
  once more for a new refresh token. So the rotated token stays rejected with 401 at any
  later time and after any handler operations on the registries that issue no token under
  its identifier, also when the blacklist has evicted it.
\<close>

lemma refreshAccessToken_mem_ops:
  "\<exists>ops. snd (refreshAccessToken e db now uuid1 uuid2 token m) = fold apply_mem_op ops m \<and>
         issues_only uuid2 ops"
proof (cases "refresh_accepts e db now m token")
  case True
  then have present: "\<not> falsy_token token" and clean: "\<not> isTokenBlacklisted m token"
    by (simp_all add: refresh_accepts_def)
  from True obtain d where v: "refresh_verify e now token = Inr d"
    by (cases "refresh_verify e now token") (simp_all add: refresh_accepts_def)
  with True have ty: "p_tokenType d = ''refresh''"
    and reg: "map_of (refreshTokens m) (p_jti d) \<noteq> None"
    by (simp_all add: refresh_accepts_def)
  from True v obtain u where u: "findById db (p_id d) = Inr (Some u)"
    and st: "status u = [] \<or> status u = ''active''"
    by (auto simp add: refresh_accepts_def split: sum.splits option.splits)
  from reg obtain ti where ti: "map_of (refreshTokens m) (p_jti d) = Some ti"
    by auto
  have v': "jwt_verify token (getRefreshSecret e) (jwt_issuer e) (jwt_audience e) now = Inr d"
    using v by (simp add: refresh_verify_def)
  let ?ops = "[Issue e now uuid2 \<lparr>i_id = u_id u, i_email = email u, i_role = []\<rparr>,
      Blacklist token, Forget (p_jti d), Touch uuid2 now]"
  have "snd (refreshAccessToken e db now uuid1 uuid2 token m) = fold apply_mem_op ?ops m"
    using present clean v' ty ti u st
    by (auto simp add: refreshAccessToken_def Let_def split_def generateRefreshToken_decode
        split: option.splits)
  then have "snd (refreshAccessToken e db now uuid1 uuid2 token m) = fold apply_mem_op ?ops m \<and>
      issues_only uuid2 ?ops"
    by (simp add: issues_only_def)
  then show ?thesis ..
next
  case False
  show ?thesis
  proof (cases "snd (refreshAccessToken e db now uuid1 uuid2 token m) = m")
    case True
    then have "snd (refreshAccessToken e db now uuid1 uuid2 token m) = fold apply_mem_op [] m \<and>
        issues_only uuid2 []"
      by (simp add: issues_only_def)
    then show ?thesis ..
  next
    case changed: False
    with False obtain j where "snd (refreshAccessToken e db now uuid1 uuid2 token m) =
        (blacklistToken token m)\<lparr>refreshTokens :=
           AList.delete j (refreshTokens (blacklistToken token m))\<rparr>"
      by (auto simp add: refreshAccessToken_def refresh_accepts_def refresh_verify_def Let_def
          split: sum.splits option.splits if_splits)
    then have "snd (refreshAccessToken e db now uuid1 uuid2 token m) =
        fold apply_mem_op [Blacklist token, Forget j] m \<and>
        issues_only uuid2 [Blacklist token, Forget j]"
      by (simp add: issues_only_def)
    then show ?thesis ..
  qed
qed

lemma rotated_refresh_token_stays_rejected:
  assumes "http_status (fst (refreshAccessToken e db now uuid1 uuid2 token m)) = 200"
    and "jwt_decode token = Some d"
    and "list_all (\<lambda>x. \<not> issues x (p_jti d)) ops" and "now \<le> now'"
  shows "http_status (fst (refreshAccessToken e db' now' uuid3 uuid4 token
           (fold apply_mem_op ops (snd (refreshAccessToken e db now uuid1 uuid2 token m))))) = 401"
proof -
  have acc: "refresh_accepts e db now m token"
  proof (rule ccontr)
    assume "\<not> refresh_accepts e db now m token"
    from refreshAccessToken_refused(1) [OF this, of uuid1 uuid2] assms(1) show False
      by (simp split: if_splits)
  qed
  then obtain d' where v: "refresh_verify e now token = Inr d'"
    by (cases "refresh_verify e now token") (simp_all add: refresh_accepts_def)
  then have "jwt_decode token = Some d'"
    unfolding refresh_verify_def by (rule jwt_verify_decode)
  with assms(2) have v: "refresh_verify e now token = Inr d"
    using v by simp
  have "unregistered (snd (refreshAccessToken e db now uuid1 uuid2 token m)) (p_jti d)"
    using acc v by (rule refreshAccessToken_unregisters)
  then have "unregistered
      (fold apply_mem_op ops (snd (refreshAccessToken e db now uuid1 uuid2 token m))) (p_jti d)"
    using assms(3) by (rule unregistered_fold)
  with v assms(4) show ?thesis
    by (rule unregistered_refused)
qed

text \<open>
  Claim C1 says that the endpoint mints a new pair for a refresh token if and only if the
  signature of the token verifies and its identifier is in the owning user's persisted
  list, in an entry that is neither revoked nor expired. The endpoint tests other
  conditions, on the registries of the process: a token that it has rotated is on the
  blacklist and is rejected, while its entry in the persisted list is still there,
  unrevoked and unexpired.
\<close>

theorem refresh_validity_counterexample:
  "refresh_token_valid_spec empty_env [alice_after_login] 2000 alice_refresh_token \<and>
   \<not> minted (fst (refreshAccessToken empty_env [alice_after_login] 2000 ''a3'' ''r3''
      alice_refresh_token
      (snd (refreshAccessToken empty_env [alice_after_login] 1000 ''a2'' ''r2''
         alice_refresh_token mem_after_login)))) \<and>
   http_status (fst (refreshAccessToken empty_env [alice_after_login] 2000 ''a3'' ''r3''
      alice_refresh_token
      (snd (refreshAccessToken empty_env [alice_after_login] 1000 ''a2'' ''r2''
         alice_refresh_token mem_after_login)))) = 401"
proof -
  have "(2000::int) div 1000 < 0 div 1000 + refresh_expiresIn empty_env"
    by (simp add: refresh_expiresIn_def empty_env_def)
  from generateRefreshToken_verify [OF this, of "''r1''" alice_identity empty_mem]
  have v: "refresh_verify empty_env 2000 alice_refresh_token =
     Inr \<lparr>p_id = alice_id, p_email = ''alice@example.com'', p_role = [],
          p_tokenType = ''refresh'', p_iat = 0, p_jti = ''r1'', p_exp = Some 604800,
          p_nbf = None, p_iss = jwt_issuer empty_env, p_aud = jwt_audience empty_env\<rparr>"
    by (simp add: alice_refresh_token_def alice_identity_def refresh_expiresIn_def
        empty_env_def)
  have "refresh_token_valid_spec empty_env [alice_after_login] 2000 alice_refresh_token"
    by (simp add: refresh_token_valid_spec_def persisted_valid_def v
        findById_alice_after_login alice_after_login_fields)
  moreover have present: "\<not> falsy_token alice_refresh_token"
    by (simp add: alice_refresh_token_def)
  have "isTokenBlacklisted (snd (refreshAccessToken empty_env [alice_after_login] 1000
      ''a2'' ''r2'' alice_refresh_token mem_after_login)) alice_refresh_token"
    using alice_refresh_token_accepted by (rule refreshAccessToken_accepted(2))
  with present have "fst (refreshAccessToken empty_env [alice_after_login] 2000 ''a3'' ''r3''
      alice_refresh_token
      (snd (refreshAccessToken empty_env [alice_after_login] 1000 ''a2'' ''r2''
         alice_refresh_token mem_after_login))) =
      reply 401 (Text ''Refresh token has been revoked'')"
    by (simp add: refreshAccessToken_def)
  ultimately show ?thesis
    by (simp add: minted_def)
qed

text \<open>
  Claim C1, amended. The endpoint mints a new pair for a presented refresh token that
  verifies under the refresh secret and whose identifier is present, unrevoked and
  unexpired in the owning user's persisted list, when in addition the token is not on the
  blacklist of the process, has the type refresh, its identifier is in the registry of
  refresh tokens of the process, and its user exists and is active. A token that is
  empty, on the blacklist, fails the verification, has another type, is not in the
  registry of the process, or whose user is missing or not active, is rejected and mints
  nothing: with status 401, or 500 when the verification fails on the not-before time or
  the store throws on the query for the user, whose identifier is no ObjectId.
\<close>

theorem refresh_token_minting:
  "(refresh_accepts e db now m token \<and> refresh_token_valid_spec e db now token \<longrightarrow>
      minted (fst (refreshAccessToken e db now uuid1 uuid2 token m))) \<and>
   (\<not> refresh_accepts e db now m token \<longrightarrow>
      \<not> minted (fst (refreshAccessToken e db now uuid1 uuid2 token m)) \<and>
      data_accessToken (fst (refreshAccessToken e db now uuid1 uuid2 token m)) = None \<and>
      data_refreshToken (fst (refreshAccessToken e db now uuid1 uuid2 token m)) = None \<and>
      http_status (fst (refreshAccessToken e db now uuid1 uuid2 token m)) =
        (if refresh_throws e db now m token then 500 else 401))"
proof (intro conjI impI)
  assume "refresh_accepts e db now m token \<and> refresh_token_valid_spec e db now token"
  then have "refresh_accepts e db now m token" ..
  from refreshAccessToken_accepted(1) [OF this, of uuid1 uuid2]
  show "minted (fst (refreshAccessToken e db now uuid1 uuid2 token m))"
    by (auto simp: minted_def)
next
  assume no: "\<not> refresh_accepts e db now m token"
  show "data_accessToken (fst (refreshAccessToken e db now uuid1 uuid2 token m)) = None"
    using no by (rule refreshAccessToken_refused(2))
  then show "\<not> minted (fst (refreshAccessToken e db now uuid1 uuid2 token m))"
    by (simp add: minted_def)
  show "data_refreshToken (fst (refreshAccessToken e db now uuid1 uuid2 token m)) = None"
    using no by (rule refreshAccessToken_refused(3))
  show "http_status (fst (refreshAccessToken e db now uuid1 uuid2 token m)) =
        (if refresh_throws e db now m token then 500 else 401)"
    using no by (rule refreshAccessToken_refused(1))
qed

theorem refresh_token_minting_witness:
  "minted (fst (refreshAccessToken empty_env [alice_after_login] 1000 ''a2'' ''r2''
      alice_refresh_token mem_after_login)) \<and>
   http_status (fst (refreshAccessToken empty_env [alice_after_login] 1000 ''a2'' ''r2''
      alice_refresh_token empty_mem)) = 401"
proof -
  have no: "\<not> refresh_accepts empty_env [alice_after_login] 1000 empty_mem alice_refresh_token"
    by (simp add: refresh_accepts_def alice_refresh_token_verify empty_mem_def)
  have v: "\<not> refresh_throws empty_env [alice_after_login] 1000 empty_mem alice_refresh_token"
    by (simp add: refresh_throws_def alice_refresh_token_verify empty_mem_def)
  from refresh_token_minting [of empty_env "[alice_after_login]" 1000 mem_after_login
      alice_refresh_token "''a2''" "''r2''"]
    refresh_token_minting [of empty_env "[alice_after_login]" 1000 empty_mem
      alice_refresh_token "''a2''" "''r2''"]
    alice_refresh_token_accepted alice_refresh_token_spec_valid no v
  show ?thesis by simp
qed

section \<open>Revocation in the persisted list\<close>

lemma find_record_put:
  "find_record (put u' db) x =
     map_option (\<lambda>v. if u_id v = u_id u' then u' else v) (find_record db x)"
  unfolding find_record_def put_def
  by (induction db) auto

lemma refresh_view_put:
  assumes "find_record db (u_id u') = Some u" and "refresh_view u' = refresh_view u"
  shows "map_option refresh_view (find_record (put u' db) x) = map_option refresh_view (find_record db x)"
proof (cases "find_record db x")
  case None
  then show ?thesis by (simp add: find_record_put)
next
  case (Some v)
  then have idv: "u_id v = x"
    unfolding find_record_def by (auto dest: find_Some_iff [THEN iffD1])
  show ?thesis
  proof (cases "x = u_id u'")
    case True
    with Some assms show ?thesis by (simp add: find_record_put idv)
  next
    case False
    with Some idv show ?thesis by (simp add: find_record_put)
  qed
qed

lemma refreshAccessToken_cong:
  assumes "\<And>x. map_option refresh_view (find_record db' x) = map_option refresh_view (find_record db x)"
  shows "refreshAccessToken e db' now uuid1 uuid2 token m =
         refreshAccessToken e db now uuid1 uuid2 token m"
proof (cases "jwt_verify token (getRefreshSecret e) (jwt_issuer e) (jwt_audience e) now")
  case (Inl err)
  then show ?thesis by (simp add: refreshAccessToken_def)
next
  case (Inr d)
  from assms [of "toLowerCase (p_id d)"] show ?thesis
    by (cases "find_record db (toLowerCase (p_id d))"; cases "find_record db' (toLowerCase (p_id d))")
       (auto simp add: refreshAccessToken_def Inr refresh_view_def Let_def split_def
          findById_def split: option.splits)
qed

lemma findById_found:
  assumes "findById db uid = Inr (Some u)"
  shows "find_record db (u_id u) = Some u"
proof -
  from assms have "find_record db (toLowerCase uid) = Some u"
    by (simp add: findById_def split: if_splits)
  moreover from this have "u_id u = toLowerCase uid"
    unfolding find_record_def by (auto dest: find_Some_iff [THEN iffD1])
  ultimately show ?thesis by simp
qed

lemma refresh_view_revokeAllRefreshTokens [simp]:
  "refresh_view (revokeAllRefreshTokens u) = refresh_view u"
  by (simp add: refresh_view_def revokeAllRefreshTokens_def)

lemma refresh_view_pre_save_password [simp]:
  "refresh_view (pre_save_password now u) = refresh_view u"
  by (simp add: refresh_view_def pre_save_password_def Let_def
      split: option.splits stored_password.splits)

lemma u_id_revokeAllRefreshTokens [simp]: "u_id (revokeAllRefreshTokens u) = u_id u"
  by (simp add: revokeAllRefreshTokens_def)

lemma u_id_pre_save_password [simp]: "u_id (pre_save_password now u) = u_id u"
  by (simp add: pre_save_password_def Let_def split: option.splits stored_password.splits)

lemma refresh_ignores_logoutAllDevices:
  "refreshAccessToken e (snd (logoutAllDevices ruser db)) now uuid1 uuid2 token m =
   refreshAccessToken e db now uuid1 uuid2 token m"
proof (cases "findById db (ru_id ruser)")
  case (Inl err)
  then show ?thesis by (simp add: logoutAllDevices_def)
next
  case (Inr found)
  show ?thesis
  proof (cases found)
    case None
    with Inr show ?thesis by (simp add: logoutAllDevices_def)
  next
    case (Some user)
    with Inr have idu: "find_record db (u_id user) = Some user"
      by (intro findById_found) simp
    have "refreshAccessToken e (put (revokeAllRefreshTokens user) db) now uuid1 uuid2 token m =
          refreshAccessToken e db now uuid1 uuid2 token m"
      by (rule refreshAccessToken_cong, rule refresh_view_put [where u = user])
         (simp_all add: idu)
    with Inr Some show ?thesis by (simp add: logoutAllDevices_def)
  qed
qed

lemma refresh_ignores_changePassword:
  "refreshAccessToken e (snd (changePassword t ruser currentPassword newPassword db))
     now uuid1 uuid2 token m =
   refreshAccessToken e db now uuid1 uuid2 token m"
proof (cases "snd (changePassword t ruser currentPassword newPassword db) = db")
  case True
  then show ?thesis by simp
next
  case False
  then obtain user where found: "findById db (ru_id ruser) = Inr (Some user)"
    and written: "snd (changePassword t ruser currentPassword newPassword db) =
      put (pre_save_password t (revokeAllRefreshTokens
        (user\<lparr>password := Some (Plain newPassword), passwordLastChanged := t\<rparr>))) db"
    by (auto simp add: changePassword_def Let_def split: sum.splits option.splits if_splits)
  from found have idu: "find_record db (u_id user) = Some user"
    by (rule findById_found)
  let ?u2 = "pre_save_password t (revokeAllRefreshTokens
      (user\<lparr>password := Some (Plain newPassword), passwordLastChanged := t\<rparr>))"
  have view: "refresh_view (user\<lparr>password := Some (Plain newPassword),
      passwordLastChanged := t\<rparr>) = refresh_view user"
    by (simp add: refresh_view_def)
  have "refreshAccessToken e (put ?u2 db) now uuid1 uuid2 token m =
        refreshAccessToken e db now uuid1 uuid2 token m"
    by (rule refreshAccessToken_cong, rule refresh_view_put [where u = user])
       (simp_all add: idu view)
  with written show ?thesis by simp
qed

lemma alice_after_login_password:
  "password alice_after_login = Some (Bcrypt ''Passw0rd!'')"
  "passwordHistory alice_after_login = []"
proof -
  have "same_account alice alice_after_login"
    unfolding alice_after_login_def by (rule logged_in_record_same)
  then show "password alice_after_login = Some (Bcrypt ''Passw0rd!'')"
    by (simp add: same_account_def alice_fields)
  show "passwordHistory alice_after_login = []"
    by (simp add: alice_after_login_def logged_in_record_def addRefreshToken_assign_def Let_def
        updateLastActive_def recordLogin_assign_def updateOne_def resetLoginAttempts_def
        alice_def new_user_def)
qed

text \<open>
  Claim C2 says that after logout from all devices, and after a change of password, every
  refresh token issued before is answered 401 by the refresh endpoint. Both operations
  mark the entries of the persisted list revoked, and the endpoint does not read that
  list (\<open>refresh_ignores_logoutAllDevices\<close>, \<open>refresh_ignores_changePassword\<close>). The
  run below logs a user in, which issues a refresh token; logs the user out of all
  devices, or changes the password, after which the entry of the token is revoked; and
  presents the token to the endpoint, which mints a new pair.
\<close>

theorem revoked_refresh_token_still_mints:
  "snd (loginUser empty_env 0 ''a1'' ''r1'' (alice_login ''Passw0rd!'') ([alice], empty_mem)) =
     ([alice_after_login], mem_after_login) \<and>
   data_refreshToken (fst (loginUser empty_env 0 ''a1'' ''r1'' (alice_login ''Passw0rd!'')
      ([alice], empty_mem))) = Some alice_refresh_token \<and>
   http_status (fst (logoutAllDevices alice_session [alice_after_login])) = 200 \<and>
   map_option (\<lambda>u. map rt_isRevoked (u_refreshTokens u))
     (find_record (snd (logoutAllDevices alice_session [alice_after_login])) alice_id) = Some [True] \<and>
   minted (fst (refreshAccessToken empty_env
      (snd (logoutAllDevices alice_session [alice_after_login])) 1000 ''a2'' ''r2''
      alice_refresh_token mem_after_login)) \<and>
   http_status (fst (changePassword 500 alice_session ''Passw0rd!'' ''N3wPassw0rd!''
      [alice_after_login])) = 200 \<and>
   map_option (\<lambda>u. map rt_isRevoked (u_refreshTokens u))
     (find_record (snd (changePassword 500 alice_session ''Passw0rd!'' ''N3wPassw0rd!''
        [alice_after_login])) alice_id) = Some [True] \<and>
   minted (fst (refreshAccessToken empty_env
      (snd (changePassword 500 alice_session ''Passw0rd!'' ''N3wPassw0rd!''
         [alice_after_login])) 1000 ''a2'' ''r2'' alice_refresh_token mem_after_login))"
proof -
  have found: "findById [alice_after_login] (ru_id alice_session) = Inr (Some alice_after_login)"
    by (simp add: alice_session_def findById_alice_after_login)
  have out: "logoutAllDevices alice_session [alice_after_login] =
      (\<lparr>http_status = 200, success = True,
        message = Text ''Logged out from all devices successfully'', data_user = None,
        data_accessToken = None, data_refreshToken = None\<rparr>,
       [revokeAllRefreshTokens alice_after_login])"
    by (simp add: logoutAllDevices_def found put_def)
  have pw: "comparePassword alice_after_login ''Passw0rd!''"
    "isPasswordInHistory alice_after_login ''N3wPassw0rd!'' = Inr False"
    "valid_password ''N3wPassw0rd!''"
    by (simp_all add: comparePassword_def isPasswordInHistory_def alice_after_login_password
        bcrypt_compare_def valid_password_def)
  let ?u2 = "pre_save_password 500 (revokeAllRefreshTokens
      (alice_after_login\<lparr>password := Some (Plain ''N3wPassw0rd!''),
         passwordLastChanged := 500\<rparr>))"
  have chg: "changePassword 500 alice_session ''Passw0rd!'' ''N3wPassw0rd!'' [alice_after_login]
      = (\<lparr>http_status = 200, success = True,
          message = Text
            ''Password changed successfully. Please login again with your new password.'',
          data_user = None, data_accessToken = None, data_refreshToken = None\<rparr>, [?u2])"
    by (simp add: changePassword_def found pw put_def Let_def)
  have rev1: "map rt_isRevoked (u_refreshTokens (revokeAllRefreshTokens alice_after_login)) = [True]"
    by (simp add: revokeAllRefreshTokens_def alice_after_login_fields)
  have rev2: "map rt_isRevoked (u_refreshTokens ?u2) = [True]"
    by (simp add: pre_save_password_def revokeAllRefreshTokens_def alice_after_login_fields
        Let_def)
  have id1: "find_record [revokeAllRefreshTokens alice_after_login] alice_id =
      Some (revokeAllRefreshTokens alice_after_login)"
    by (simp add: find_record_def alice_after_login_fields)
  have id2: "find_record [?u2] alice_id = Some ?u2"
    by (simp add: find_record_def alice_after_login_fields)
  from refreshAccessToken_accepted(1) [OF alice_refresh_token_accepted, of "''a2''" "''r2''"]
  have ok: "minted (fst (refreshAccessToken empty_env [alice_after_login] 1000 ''a2'' ''r2''
      alice_refresh_token mem_after_login))"
    by (auto simp: minted_def)
  have m1: "minted (fst (refreshAccessToken empty_env
      (snd (logoutAllDevices alice_session [alice_after_login])) 1000 ''a2'' ''r2''
      alice_refresh_token mem_after_login))"
    unfolding refresh_ignores_logoutAllDevices by (rule ok)
  have m2: "minted (fst (refreshAccessToken empty_env
      (snd (changePassword 500 alice_session ''Passw0rd!'' ''N3wPassw0rd!''
         [alice_after_login])) 1000 ''a2'' ''r2'' alice_refresh_token mem_after_login))"
    unfolding refresh_ignores_changePassword by (rule ok)
  have l1: "http_status (fst (logoutAllDevices alice_session [alice_after_login])) = 200"
    "map_option (\<lambda>u. map rt_isRevoked (u_refreshTokens u))
     (find_record (snd (logoutAllDevices alice_session [alice_after_login])) alice_id) = Some [True]"
    unfolding out by (simp_all add: id1 rev1)
  have l2: "http_status (fst (changePassword 500 alice_session ''Passw0rd!'' ''N3wPassw0rd!''
      [alice_after_login])) = 200"
    "map_option (\<lambda>u. map rt_isRevoked (u_refreshTokens u))
     (find_record (snd (changePassword 500 alice_session ''Passw0rd!'' ''N3wPassw0rd!''
        [alice_after_login])) alice_id) = Some [True]"
    unfolding chg by (simp_all add: id2 rev2)
  from login_alice(1,2) l1 m1 l2 m2 show ?thesis
    by (intro conjI)
qed

section \<open>What the responses show of a credential record\<close>

lemma absent_delete: "k \<notin> object_keys (AList.delete k xs)"
  unfolding object_keys_def by (induction xs) auto

lemma absent_delete_other: "k \<notin> object_keys xs \<Longrightarrow> k \<notin> object_keys (AList.delete k' xs)"
  unfolding object_keys_def by (induction xs) auto

lemma absent_update:
  "k \<noteq> k' \<Longrightarrow> k \<notin> object_keys xs \<Longrightarrow> k \<notin> object_keys (AList.update k' v xs)"
  unfolding object_keys_def by (induction xs) auto

lemma keys_of_sensitive:
  assumes "k \<in> set sensitive_fields"
  obtains "k = ''password''" | "k = ''refreshTokens''" | "k = ''twoFactorSecret''"
    | "k = ''passwordHistory''" | "k = ''backupCodes''" | "k = ''resetPasswordToken''"
    | "k = ''emailVerificationToken''"
  using assms unfolding sensitive_fields_def by fastforce

lemma toJSON_transform_absent:
  assumes "k \<in> set sensitive_fields"
  shows "k \<notin> object_keys (toJSON_transform ret)"
proof -
  define r8 where "r8 = AList.delete ''__v'' (AList.delete ''backupCodes''
        (AList.delete ''passwordHistory'' (AList.delete ''emailVerificationToken''
        (AList.delete ''resetPasswordToken'' (AList.delete ''twoFactorSecret''
        (AList.delete ''refreshTokens'' (AList.delete ''password'' ret)))))))"
  have r: "toJSON_transform ret =
      AList.delete ''_id'' (case map_of r8 ''_id'' of
         None \<Rightarrow> AList.delete ''id'' r8 | Some v \<Rightarrow> AList.update ''id'' v r8)"
    unfolding toJSON_transform_def r8_def Let_def by (rule refl)
  have k8: "k \<notin> object_keys r8"
    using assms unfolding r8_def
    by (rule keys_of_sensitive) (hypsubst, intro absent_delete absent_delete_other)+
  have idk: "k \<noteq> ''id''"
    using assms by (rule keys_of_sensitive) simp_all
  show ?thesis
    unfolding r
    by (cases "map_of r8 ''_id''")
       (simp_all add: absent_delete_other absent_update k8 idk)
qed

lemma toJSON_transform_sensitive:
  "set sensitive_fields \<inter> object_keys (toJSON_transform ret) = {}"
  using toJSON_transform_absent [of _ ret] by blast

lemma keys_delete_subset: "object_keys (AList.delete k xs) \<subseteq> object_keys xs"
  unfolding object_keys_def by (induction xs) auto

lemma user_keys_reply [simp]: "user_keys (reply code msg) = {}"
  by (simp add: user_keys_def reply_def)

lemma data_user_reply [simp]: "data_user (reply code msg) = None"
  by (simp add: reply_def)

lemma data_user_catch [simp]:
  "data_user (loginUser_catch err) = None" "data_user (registerUser_catch err) = None"
  by (simp_all add: loginUser_catch_def registerUser_catch_def)

lemma loginUser_user:
  "data_user (fst (loginUser e now uuid1 uuid2 req s)) = None \<or>
   (\<exists>u. data_user (fst (loginUser e now uuid1 uuid2 req s)) =
      Some (AList.delete ''lockUntil'' (AList.delete ''loginAttempts'' (toJSON u))))"
  by (auto simp add: loginUser_def Let_def split_def split: option.splits sum.splits)

lemma getUserInfo_user:
  "data_user (fst (getUserInfo now ruser db)) = None \<or>
   (\<exists>u. data_user (fst (getUserInfo now ruser db)) = Some (toJSON u))"
  by (auto simp add: getUserInfo_def Let_def split: option.splits sum.splits)

lemma registerUser_user:
  "data_user (fst (registerUser e now oid uuid1 uuid2 req s)) = None \<or>
   (\<exists>u. data_user (fst (registerUser e now oid uuid1 uuid2 req s)) = Some (registerUser_data u))"
  by (auto simp add: registerUser_def Let_def split_def split: option.splits sum.splits)

lemma keys_registerUser_data:
  "object_keys (registerUser_data u) \<subseteq>
     {''id'', ''fullName'', ''email'', ''profileImageUrl'', ''role'', ''status'',
      ''emailVerified'', ''createdAt''}"
  by (auto simp add: object_keys_def registerUser_data_def str_field_def split: if_splits)

text \<open>
  Claim C10. The JSON transform of the user schema removes the password hash, the
  refresh-token descriptors, the two-factor secret, the password history, the backup
  codes and the reset and verification tokens from any object; the user object of every
  response of registration, login and getUser has none of these fields (a response that
  is no success has no user object at all), and the user object of a login response has
  neither \<open>loginAttempts\<close> nor \<open>lockUntil\<close>.
\<close>

theorem responses_omit_sensitive_fields:
  "set sensitive_fields \<inter> object_keys (toJSON_transform ret) = {} \<and>
   set sensitive_fields \<inter> user_keys (fst (registerUser e now oid uuid1 uuid2 rreq s)) = {} \<and>
   set sensitive_fields \<inter> user_keys (fst (loginUser e now uuid1 uuid2 lreq s)) = {} \<and>
   set sensitive_fields \<inter> user_keys (fst (getUserInfo now ruser db)) = {} \<and>
   ''loginAttempts'' \<notin> user_keys (fst (loginUser e now uuid1 uuid2 lreq s)) \<and>
   ''lockUntil'' \<notin> user_keys (fst (loginUser e now uuid1 uuid2 lreq s))"
proof -
  let ?reg = "fst (registerUser e now oid uuid1 uuid2 rreq s)"
  let ?login = "fst (loginUser e now uuid1 uuid2 lreq s)"
  let ?get = "fst (getUserInfo now ruser db)"
  have json: "set sensitive_fields \<inter> object_keys (toJSON u) = {}" for u
    unfolding toJSON_def by (rule toJSON_transform_sensitive)
  have reg: "set sensitive_fields \<inter> user_keys ?reg = {}"
    using registerUser_user [of e now oid uuid1 uuid2 rreq s]
  proof (elim disjE exE)
    assume "data_user ?reg = None"
    then show ?thesis by (simp add: user_keys_def)
  next
    fix u assume "data_user ?reg = Some (registerUser_data u)"
    then have "user_keys ?reg = object_keys (registerUser_data u)"
      by (simp add: user_keys_def)
    with keys_registerUser_data [of u] show ?thesis
      by (auto simp: sensitive_fields_def)
  qed
  have login: "set sensitive_fields \<inter> user_keys ?login = {} \<and>
      ''loginAttempts'' \<notin> user_keys ?login \<and> ''lockUntil'' \<notin> user_keys ?login"
    using loginUser_user [of e now uuid1 uuid2 lreq s]
  proof (elim disjE exE)
    assume "data_user ?login = None"
    then show ?thesis by (simp add: user_keys_def)
  next
    fix u
    let ?obj = "AList.delete ''lockUntil'' (AList.delete ''loginAttempts'' (toJSON u))"
    assume "data_user ?login = Some ?obj"
    then have k: "user_keys ?login = object_keys ?obj"
      by (simp add: user_keys_def)
    have "''loginAttempts'' \<notin> object_keys ?obj" "''lockUntil'' \<notin> object_keys ?obj"
      by (intro absent_delete absent_delete_other)+
    moreover have "object_keys ?obj \<subseteq> object_keys (toJSON u)"
      by (intro order_trans [OF keys_delete_subset keys_delete_subset])
    ultimately show ?thesis
      using json [of u] unfolding k by blast
  qed
  have get: "set sensitive_fields \<inter> user_keys ?get = {}"
    using getUserInfo_user [of now ruser db]
  proof (elim disjE exE)
    assume "data_user ?get = None"
    then show ?thesis by (simp add: user_keys_def)
  next
    fix u assume "data_user ?get = Some (toJSON u)"
    then have "user_keys ?get = object_keys (toJSON u)"
      by (simp add: user_keys_def)
    with json [of u] show ?thesis by simp
  qed
  from toJSON_transform_sensitive [of ret] reg login get show ?thesis
    by (intro conjI) simp_all
qed

text \<open>
  The user object of a successful login is not empty: it has the property \<open>id\<close>.
\<close>

lemma present_delete_other:
  "k \<noteq> k' \<Longrightarrow> k \<in> object_keys xs \<Longrightarrow> k \<in> object_keys (AList.delete k' xs)"
  unfolding object_keys_def by (induction xs) auto

lemma present_update: "k \<in> object_keys (AList.update k v xs)"
  unfolding object_keys_def by (induction xs) auto

lemma toJSON_has_id: "''id'' \<in> object_keys (toJSON u)"
proof -
  define r8 where "r8 = AList.delete ''__v'' (AList.delete ''backupCodes''
        (AList.delete ''passwordHistory'' (AList.delete ''emailVerificationToken''
        (AList.delete ''resetPasswordToken'' (AList.delete ''twoFactorSecret''
        (AList.delete ''refreshTokens'' (AList.delete ''password'' (plain_object u))))))))"
  have r: "toJSON u =
      AList.delete ''_id'' (case map_of r8 ''_id'' of
         None \<Rightarrow> AList.delete ''id'' r8 | Some v \<Rightarrow> AList.update ''id'' v r8)"
    unfolding toJSON_def toJSON_transform_def r8_def Let_def by (rule refl)
  obtain rest where "plain_object u = (''_id'', Str (u_id u)) # rest"
    by (simp add: plain_object_def)
  then have "map_of r8 ''_id'' = Some (Str (u_id u))"
    unfolding r8_def by (simp add: delete_conv)
  then show ?thesis
    unfolding r by (simp add: present_delete_other present_update)
qed

lemma login_response_has_user:
  assumes "findByEmail db (lr_email req) = Some u" and "status u = ''active''"
    and "\<not> isLocked u now" and "comparePassword u (lr_password req)"
    and "passwordHistory u = []" and "login_recorded req True"
    and "descriptor_stored req uuid2"
  shows "''id'' \<in> user_keys (fst (loginUser e now uuid1 uuid2 req (db, m)))"
proof -
  have "\<exists>d. data_user (fst (loginUser e now uuid1 uuid2 req (db, m))) =
      Some (AList.delete ''lockUntil'' (AList.delete ''loginAttempts'' (toJSON d)))"
    using assms(1-5) recordLogin_recorded [OF assms(6)] addRefreshToken_stored [OF assms(7)]
    by (simp add: loginUser_def Let_def generateRefreshToken_decode split_def
        isPasswordInHistory_def)
       (rule exI, rule refl)
  then show ?thesis
    by (auto simp: user_keys_def intro!: present_delete_other toJSON_has_id)
qed

text \<open>
  \<open>getUserInfo\<close> never answers with a user object: on the document that it fetched the
  path \<^verbatim>\<open>refreshTokens\<close> is excluded, and reading it for the response throws.
\<close>

lemma getUserInfo_no_user: "data_user (fst (getUserInfo now ruser db)) = None"
  by (auto simp add: getUserInfo_def Let_def activeTokens_def getUserInfo_select_def
      split: option.splits sum.splits)


end
